theory Spec2Isabelle
  imports Main "HOL-Library.AList"
begin

section \<open>Python values, errors and the logger\<close>

text \<open>
  The two source files are \<^verbatim>\<open>lightnet/engine/_parameter.py\<close> (class
  \<^verbatim>\<open>HyperParameters\<close>) and \<^verbatim>\<open>lightnet/engine/engine.py\<close> (class
  \<^verbatim>\<open>Engine\<close>). Exceptions are values of \<open>py_error\<close>; a function that can raise
  returns \<open>py_error + 'a\<close> with \<open>Inl\<close> for the exception. A Python \<^verbatim>\<open>dict\<close> is an
  association list in insertion order with distinct keys: lookup is \<open>map_of\<close>, item
  assignment is \<open>AList.update\<close> (an existing key keeps its place, a new key goes last).
  Python integers are \<open>int\<close>; \<^verbatim>\<open>%\<close> and \<^verbatim>\<open>//\<close> are \<open>mod\<close> and \<open>div\<close> (both floor), except
  that Python raises on a zero divisor, which the model writes out.
\<close>

datatype py_error =
  ValueError | TypeError | AttributeError | ZeroDivisionError
  | KeyError | IndexError | RuntimeError | FileNotFoundError

datatype log_level = Debug | Info | Warn

type_synonym log_record = "log_level \<times> string"

section \<open>Collaborators: tensors, network, optimizers, schedulers\<close>

text \<open>
  The torch objects are outside the repository. Only what the source touches is kept: a
  tensor has the device of its data and, when it has a gradient buffer, the device of
  that buffer; a network, an optimizer and a scheduler each have a state snapshot that
  \<^verbatim>\<open>state_dict()\<close> reads and \<^verbatim>\<open>load_state_dict()\<close> restores.
\<close>

datatype device = Cpu | Cuda nat

datatype tensor = Tensor (data_device: device) (grad_device: "device option")

text \<open>A value held in an optimizer state or a scheduler attribute: a tensor, a nested
  dictionary, or anything else.\<close>

datatype sval = TensorVal tensor | DictVal "(string \<times> sval) list" | OpaqueVal nat

record network =
  net_params :: "(string \<times> nat) list"
  net_device :: device
  training :: bool

record optimizer =
  opt_state :: "(nat \<times> sval) list"

record scheduler =
  sched_dict :: "(string \<times> sval) list"



definition net_to :: "device \<Rightarrow> network \<Rightarrow> network" where
  "net_to d n = n\<lparr>net_device := d\<rparr>"

definition net_train :: "network \<Rightarrow> network" where
  "net_train n = n\<lparr>training := True\<rparr>"





section \<open>HyperParameters\<close>

text \<open>A value an attribute, a keyword argument or a key of the saved record can hold.\<close>

datatype pyval =
  NoneV
  | IntV int
  | StrV string
  | NamesV "string list"
  | NetV network
  | OptimsV "optimizer list"
  | SchedsV "scheduler list"
  | OptimV optimizer
  | SchedV scheduler
  | NetStateV "(string \<times> nat) list"
  | OptimStatesV "(nat \<times> sval) list list"
  | SchedStatesV "(string \<times> sval) list list"
  | MethodV string
  | OpaqueV nat

text \<open>
  The instance attributes \<^verbatim>\<open>__init__\<close> always sets are the fields of the record;
  \<open>no_serialize\<close> is the name-mangled attribute \<^verbatim>\<open>_HyperParameters__no_serialize\<close>, and
  \<open>extra\<close> holds the attributes made from keyword arguments, in insertion order.
\<close>

record hyper =
  network :: network
  batch_size :: int
  batch :: int
  epoch :: int
  mini_batch_size :: int
  optimizers :: "optimizer list option"
  schedulers :: "scheduler list option"
  no_serialize :: "string list"
  extra :: "(string \<times> pyval) list"

text \<open>The \<^verbatim>\<open>optimizers\<close> and \<^verbatim>\<open>schedulers\<close> arguments: \<^verbatim>\<open>None\<close>, one object, or an
  iterable of objects.\<close>

datatype 'a seq_arg = ArgNone | ArgSingle 'a | ArgIter "'a list"

definition normalize_seq :: "'a seq_arg \<Rightarrow> 'a list option" where
  "normalize_seq a = (case a of ArgNone \<Rightarrow> None | ArgIter xs \<Rightarrow> Some xs | ArgSingle x \<Rightarrow> Some [x])"

definition optsval :: "optimizer list option \<Rightarrow> pyval" where
  "optsval os = (case os of None \<Rightarrow> NoneV | Some xs \<Rightarrow> OptimsV xs)"

definition schedsval :: "scheduler list option \<Rightarrow> pyval" where
  "schedsval ss = (case ss of None \<Rightarrow> NoneV | Some xs \<Rightarrow> SchedsV xs)"

text \<open>\<^verbatim>\<open>vars(self)\<close>: the instance dictionary, in the order \<^verbatim>\<open>__init__\<close> fills it.\<close>

definition vars_hp :: "hyper \<Rightarrow> (string \<times> pyval) list" where
  "vars_hp p =
     [(''network'', NetV (network p)),
      (''batch_size'', IntV (batch_size p)),
      (''batch'', IntV (batch p)),
      (''epoch'', IntV (epoch p)),
      (''mini_batch_size'', IntV (mini_batch_size p)),
      (''optimizers'', optsval (optimizers p)),
      (''schedulers'', schedsval (schedulers p)),
      (''_HyperParameters__no_serialize'', NamesV (no_serialize p))] @ extra p"

text \<open>The property \<^verbatim>\<open>batch_subdivisions\<close>: \<^verbatim>\<open>self.batch_size // self.mini_batch_size\<close>.\<close>

definition batch_subdivisions :: "hyper \<Rightarrow> py_error + int" where
  "batch_subdivisions p =
     (if mini_batch_size p = 0 then Inl ZeroDivisionError
      else Inr (batch_size p div mini_batch_size p))"

text \<open>The properties \<^verbatim>\<open>optimizer\<close> and \<^verbatim>\<open>scheduler\<close>: element 0 of the sequence.\<close>

definition first_of :: "'a list option \<Rightarrow> py_error + 'a" where
  "first_of xs = (case xs of None \<Rightarrow> Inl TypeError | Some [] \<Rightarrow> Inl IndexError | Some (x # _) \<Rightarrow> Inr x)"

text \<open>The names \<^verbatim>\<open>object\<close> and a plain class statement give every instance, and the
  other class attributes of \<^verbatim>\<open>HyperParameters\<close>. The Python is 3.7 to 3.9: the source
  imports \<^verbatim>\<open>Iterable\<close> from \<^verbatim>\<open>collections\<close>, which 3.10 removes, and \<^verbatim>\<open>object\<close> has
  no \<^verbatim>\<open>__getstate__\<close> before 3.11.\<close>

definition object_names :: "string list" where
  "object_names =
     [''__module__'', ''__dict__'', ''__weakref__'',
      ''__doc__'', ''__class__'', ''__delattr__'', ''__dir__'', ''__eq__'', ''__format__'',
      ''__ge__'', ''__getattribute__'', ''__gt__'', ''__hash__'', ''__init_subclass__'',
      ''__le__'', ''__lt__'', ''__ne__'', ''__new__'', ''__reduce__'', ''__reduce_ex__'',
      ''__repr__'', ''__setattr__'', ''__sizeof__'', ''__str__'', ''__subclasshook__'']"

definition hp_methods :: "string list" where
  "hp_methods = [''save'', ''load'', ''to'', ''__init__''] @ object_names"

text \<open>
  \<^verbatim>\<open>getattr(params, name)\<close>: a property of the class first (its getter runs and may
  raise), then the instance dictionary, then the remaining class attributes.
\<close>

definition hp_getattr :: "hyper \<Rightarrow> string \<Rightarrow> py_error + pyval" where
  "hp_getattr p name =
     (if name = ''optimizer'' then
        (case first_of (optimizers p) of Inl e \<Rightarrow> Inl e | Inr x \<Rightarrow> Inr (OptimV x))
      else if name = ''scheduler'' then
        (case first_of (schedulers p) of Inl e \<Rightarrow> Inl e | Inr x \<Rightarrow> Inr (SchedV x))
      else if name = ''batch_subdivisions'' then
        (case batch_subdivisions p of Inl e \<Rightarrow> Inl e | Inr d \<Rightarrow> Inr (IntV d))
      else
        (case map_of (vars_hp p) name of
           Some v \<Rightarrow> Inr v
         | None \<Rightarrow> if name \<in> set hp_methods then Inr (MethodV name) else Inl AttributeError))"

text \<open>\<^verbatim>\<open>hasattr\<close> turns an \<^verbatim>\<open>AttributeError\<close> into \<^verbatim>\<open>False\<close> and lets every other
  exception of a getter through.\<close>

definition hasattr_hp :: "hyper \<Rightarrow> string \<Rightarrow> py_error + bool" where
  "hasattr_hp p name =
     (case hp_getattr p name of
        Inr _ \<Rightarrow> Inr True
      | Inl e \<Rightarrow> if e = AttributeError then Inr False else Inl e)"

definition startswith_underscore :: "string \<Rightarrow> bool" where
  "startswith_underscore key = (case key of [] \<Rightarrow> False | c # _ \<Rightarrow> c = CHR ''_'')"

definition exists_warning :: "string \<Rightarrow> log_record" where
  "exists_warning key =
     (Warn, key @ '' attribute already exists as a HyperParameter and will not be overwritten.'')"

text \<open>
  The body of the loop over \<^verbatim>\<open>kwargs\<close> in \<^verbatim>\<open>__init__\<close>, for one keyword argument.
  The state is the log written so far and the object under construction. A key with a
  leading underscore is stored without it and its name appended to the exclusion list;
  an existing attribute is not overwritten, a warning is logged, and the first occurrence of
  the name is removed from the exclusion list.
\<close>

definition kwarg_name :: "string \<Rightarrow> string" where
  "kwarg_name key0 = (if startswith_underscore key0 then tl key0 else key0)"

definition kwarg_step ::
  "string \<times> pyval \<Rightarrow> log_record list \<times> hyper \<Rightarrow> py_error + log_record list \<times> hyper" where
  "kwarg_step kv st =
     (let key0 = fst kv; val = snd kv; logs = fst st; p = snd st;
          key = kwarg_name key0;
          p1 = (if startswith_underscore key0
                then p\<lparr>no_serialize := no_serialize p @ [key]\<rparr> else p)
      in case hasattr_hp p1 key of
           Inl e \<Rightarrow> Inl e
         | Inr found \<Rightarrow>
             if \<not> found then Inr (logs, p1\<lparr>extra := extra p1 @ [(key, val)]\<rparr>)
             else Inr (logs @ [exists_warning key],
                       if key \<in> set (no_serialize p1)
                       then p1\<lparr>no_serialize := remove1 key (no_serialize p1)\<rparr> else p1))"

fun init_kwargs ::
  "(string \<times> pyval) list \<Rightarrow> log_record list \<times> hyper \<Rightarrow> py_error + log_record list \<times> hyper" where
  "init_kwargs [] st = Inr st"
| "init_kwargs (kv # rest) st =
     (case kwarg_step kv st of Inl e \<Rightarrow> Inl e | Inr st' \<Rightarrow> init_kwargs rest st')"

text \<open>The choice of \<^verbatim>\<open>self.mini_batch_size\<close> (lines 50 to 55).\<close>

definition choose_mini_batch_size :: "int \<Rightarrow> int option \<Rightarrow> py_error + int" where
  "choose_mini_batch_size bs mbs =
     (case mbs of
        None \<Rightarrow> Inr bs
      | Some m \<Rightarrow>
          if m > bs then Inr bs
          else if m = 0 then Inl ZeroDivisionError
          else if bs mod m \<noteq> 0 then Inl ValueError
          else Inr m)"

definition HyperParameters_init ::
  "network \<Rightarrow> optimizer seq_arg \<Rightarrow> scheduler seq_arg \<Rightarrow> int \<Rightarrow> int option
     \<Rightarrow> (string \<times> pyval) list \<Rightarrow> py_error + log_record list \<times> hyper" where
  "HyperParameters_init net opts scheds bs mbs kwargs =
     (case choose_mini_batch_size bs mbs of
        Inl e \<Rightarrow> Inl e
      | Inr m \<Rightarrow>
          init_kwargs kwargs
            ([], \<lparr>network = net, batch_size = bs, batch = 0, epoch = 0, mini_batch_size = m,
                  optimizers = normalize_seq opts, schedulers = normalize_seq scheds,
                  no_serialize = [''network'', ''optimizers'', ''schedulers''],
                  extra = []\<rparr>))"

subsection \<open>Device migration\<close>

text \<open>
  \<^verbatim>\<open>to(device)\<close>: the network first, then every optimizer's state (a tensor, or the
  tensors one level inside a dictionary), then the tensors among every scheduler's
  attributes. Iterating \<^verbatim>\<open>None\<close> raises \<^verbatim>\<open>TypeError\<close>.
\<close>

definition tensor_to :: "device \<Rightarrow> tensor \<Rightarrow> tensor" where
  "tensor_to d t = Tensor d (case grad_device t of None \<Rightarrow> None | Some _ \<Rightarrow> Some d)"

definition inner_to :: "device \<Rightarrow> sval \<Rightarrow> sval" where
  "inner_to d v = (case v of TensorVal t \<Rightarrow> TensorVal (tensor_to d t) | _ \<Rightarrow> v)"

definition param_to :: "device \<Rightarrow> sval \<Rightarrow> sval" where
  "param_to d v =
     (case v of
        TensorVal t \<Rightarrow> TensorVal (tensor_to d t)
      | DictVal kvs \<Rightarrow> DictVal (map (\<lambda>(k, sub). (k, inner_to d sub)) kvs)
      | OpaqueVal n \<Rightarrow> OpaqueVal n)"

definition optim_to :: "device \<Rightarrow> optimizer \<Rightarrow> optimizer" where
  "optim_to d opt = opt\<lparr>opt_state := map (\<lambda>(k, v). (k, param_to d v)) (opt_state opt)\<rparr>"

definition sched_to :: "device \<Rightarrow> scheduler \<Rightarrow> scheduler" where
  "sched_to d sch = sch\<lparr>sched_dict := map (\<lambda>(k, v). (k, inner_to d v)) (sched_dict sch)\<rparr>"

definition to_device :: "device \<Rightarrow> hyper \<Rightarrow> py_error + hyper" where
  "to_device d p =
     (let p1 = p\<lparr>network := net_to d (network p)\<rparr>
      in case optimizers p1 of
           None \<Rightarrow> Inl TypeError
         | Some os \<Rightarrow>
             (let p2 = p1\<lparr>optimizers := Some (map (optim_to d) os)\<rparr>
              in case schedulers p2 of
                   None \<Rightarrow> Inl TypeError
                 | Some ss \<Rightarrow> Inr (p2\<lparr>schedulers := Some (map (sched_to d) ss)\<rparr>)))"

subsection \<open>Saving and loading\<close>















section \<open>Engine: the hook tables\<close>

text \<open>
  A registered callback has an identity; \<open>has_self\<close> says whether it carries a bound
  receiver (\<^verbatim>\<open>hasattr(fn, '__self__')\<close>). A hook table is a dictionary from the interval
  to the list of callbacks registered under it.
\<close>

datatype callback = Callback (cb_id: nat) (has_self: bool)

datatype call_style = NoArgs | WithEngine

type_synonym firing = "int \<times> callback \<times> call_style"

type_synonym table = "(int \<times> callback list) list"

text \<open>The decorator body shared by \<^verbatim>\<open>epoch_start\<close>, \<^verbatim>\<open>epoch_end\<close>, \<^verbatim>\<open>batch_start\<close> and
  \<^verbatim>\<open>batch_end\<close>, on the dictionary the class attribute names.\<close>

definition register :: "int \<Rightarrow> callback \<Rightarrow> table \<Rightarrow> table" where
  "register interval fn tbl =
     (case map_of tbl interval of
        Some fns \<Rightarrow> AList.update interval (fns @ [fn]) tbl
      | None \<Rightarrow> AList.update interval [fn] tbl)"

text \<open>
  \<^verbatim>\<open>_run_hooks(value, hooks)\<close>. The meaning of a callback is a state transformer given
  by \<open>sem\<close>; the result lists, in order, which callback was called under which interval and
  how. The inner loop is \<open>call_hooks\<close>, the loop over the snapshot of the keys is
  \<open>run_hooks_keys\<close>.
\<close>

definition style_of :: "callback \<Rightarrow> call_style" where
  "style_of fn = (if has_self fn then NoArgs else WithEngine)"

fun call_hooks ::
  "(callback \<Rightarrow> call_style \<Rightarrow> 's \<Rightarrow> 's) \<Rightarrow> int \<Rightarrow> callback list \<Rightarrow> 's \<Rightarrow> firing list \<times> 's" where
  "call_hooks sem k [] s = ([], s)"
| "call_hooks sem k (fn # fns) s =
     (let s' = (if has_self fn then sem fn NoArgs s else sem fn WithEngine s);
          r = call_hooks sem k fns s'
      in ((k, fn, style_of fn) # fst r, snd r))"

fun run_hooks_keys ::
  "(callback \<Rightarrow> call_style \<Rightarrow> 's \<Rightarrow> 's) \<Rightarrow> int \<Rightarrow> table \<Rightarrow> int list \<Rightarrow> 's
     \<Rightarrow> py_error + firing list \<times> 's" where
  "run_hooks_keys sem v hooks [] s = Inr ([], s)"
| "run_hooks_keys sem v hooks (k # ks) s =
     (if k = 0 then Inl ZeroDivisionError
      else if v mod k = 0 then
        (case map_of hooks k of
           None \<Rightarrow> Inl KeyError
         | Some fns \<Rightarrow>
             (let r = call_hooks sem k fns s
              in case run_hooks_keys sem v hooks ks (snd r) of
                   Inl e \<Rightarrow> Inl e
                 | Inr r' \<Rightarrow> Inr (fst r @ fst r', snd r')))
      else run_hooks_keys sem v hooks ks s)"

definition run_hooks ::
  "(callback \<Rightarrow> call_style \<Rightarrow> 's \<Rightarrow> 's) \<Rightarrow> int \<Rightarrow> table \<Rightarrow> 's \<Rightarrow> py_error + firing list \<times> 's" where
  "run_hooks sem v hooks s = run_hooks_keys sem v hooks (map fst hooks) s"

text \<open>The callbacks fired under interval \<open>k\<close>, in the order they were called.\<close>

definition fired_under :: "int \<Rightarrow> firing list \<Rightarrow> callback list" where
  "fired_under k fs = map (\<lambda>f. fst (snd f)) (filter (\<lambda>f. fst f = k) fs)"

section \<open>Engine: the class-level registries\<close>

text \<open>
  The four tables are class attributes of \<^verbatim>\<open>Engine\<close> (lines 38 to 41), each bound to one
  dictionary object when the class statement runs. A class is its method resolution
  order and the attributes its own body binds, here the hook tables, each to the address
  of a dictionary in the heap. \<^verbatim>\<open>cls._epoch_start\<close> is the attribute of the first class of
  the resolution order that binds the name; the registration then mutates the dictionary
  found, whichever class owns it.
\<close>

datatype hook_kind = EpochStart | EpochEnd | BatchStart | BatchEnd

definition attr_of :: "hook_kind \<Rightarrow> string" where
  "attr_of kind =
     (case kind of EpochStart \<Rightarrow> ''_epoch_start'' | EpochEnd \<Rightarrow> ''_epoch_end''
      | BatchStart \<Rightarrow> ''_batch_start'' | BatchEnd \<Rightarrow> ''_batch_end'')"

record pyclass =
  mro :: "string list"
  cattrs :: "(string \<times> nat) list"

record class_store =
  classes :: "(string \<times> pyclass) list"
  heap :: "(nat \<times> table) list"

text \<open>The store once \<^verbatim>\<open>class Engine(ABC)\<close> has run: four empty dictionaries.\<close>

definition engine_class :: class_store where
  "engine_class =
     \<lparr>classes =
        [(''Engine'',
          \<lparr>mro = [''Engine''],
           cattrs = [(''_epoch_start'', 0), (''_epoch_end'', 1),
                     (''_batch_start'', 2), (''_batch_end'', 3)]\<rparr>)],
      heap = [(0, []), (1, []), (2, []), (3, [])]\<rparr>"

text \<open>
  \<^verbatim>\<open>class name(base): ...\<close>, where \<open>own\<close> lists the table attributes the body of the new
  class binds to a fresh \<^verbatim>\<open>{}\<close> of its own (none, for a body that only defines methods).
\<close>

fun fresh_tables :: "nat \<Rightarrow> string list \<Rightarrow> (string \<times> nat) list \<times> (nat \<times> table) list" where
  "fresh_tables a [] = ([], [])"
| "fresh_tables a (nm # nms) =
     (let r = fresh_tables (Suc a) nms in ((nm, a) # fst r, (a, []) # snd r))"

definition next_addr :: "class_store \<Rightarrow> nat" where
  "next_addr st = fold (\<lambda>kv m. max (Suc (fst kv)) m) (heap st) 0"

definition define_subclass :: "string \<Rightarrow> string \<Rightarrow> string list \<Rightarrow> class_store \<Rightarrow> class_store option" where
  "define_subclass name base own st =
     (case map_of (classes st) base of
        None \<Rightarrow> None
      | Some b \<Rightarrow>
          (let r = fresh_tables (next_addr st) own
           in Some (st\<lparr>classes := AList.update name \<lparr>mro = name # mro b, cattrs = fst r\<rparr> (classes st),
                       heap := heap st @ snd r\<rparr>)))"

fun resolve_mro :: "(string \<times> pyclass) list \<Rightarrow> string list \<Rightarrow> string \<Rightarrow> nat option" where
  "resolve_mro cs [] a = None"
| "resolve_mro cs (c # rest) a =
     (case map_of cs c of
        None \<Rightarrow> resolve_mro cs rest a
      | Some k \<Rightarrow> (case map_of (cattrs k) a of Some ad \<Rightarrow> Some ad | None \<Rightarrow> resolve_mro cs rest a))"

definition resolve :: "class_store \<Rightarrow> string \<Rightarrow> string \<Rightarrow> nat option" where
  "resolve st cls a =
     (case map_of (classes st) cls of None \<Rightarrow> None | Some k \<Rightarrow> resolve_mro (classes st) (mro k) a)"

text \<open>The class method with its decorator applied: \<^verbatim>\<open>cls.epoch_start(interval)(fn)\<close> and its
  three siblings.\<close>

definition register_hook ::
  "hook_kind \<Rightarrow> string \<Rightarrow> int \<Rightarrow> callback \<Rightarrow> class_store \<Rightarrow> py_error + class_store" where
  "register_hook kind cls interval fn st =
     (case resolve st cls (attr_of kind) of
        None \<Rightarrow> Inl AttributeError
      | Some a \<Rightarrow>
          (case map_of (heap st) a of
             None \<Rightarrow> Inl AttributeError
           | Some tbl \<Rightarrow> Inr (st\<lparr>heap := AList.update a (register interval fn tbl) (heap st)\<rparr>)))"

text \<open>The table an instance of class \<open>cls\<close> passes to \<^verbatim>\<open>_run_hooks\<close>: \<^verbatim>\<open>self._epoch_start\<close>
  is not an instance attribute, so it is the class's, looked up when the dispatch runs.\<close>

definition hooks_seen :: "class_store \<Rightarrow> string \<Rightarrow> hook_kind \<Rightarrow> table option" where
  "hooks_seen st cls kind =
     (case resolve st cls (attr_of kind) of None \<Rightarrow> None | Some a \<Rightarrow> map_of (heap st) a)"

section \<open>Engine: the instance\<close>

text \<open>
  The instance attributes \<^verbatim>\<open>Engine.__init__\<close> sets are the fields of the record:
  \<open>own_attrs\<close> holds those made from keyword arguments, \<open>subclass_names\<close> the class
  attributes the concrete subclass adds, \<open>logged\<close> what the module's logger has written, and
  \<open>user\<close> everything else the callbacks of the subclass can reach. A mini-batch of the
  data loader is an opaque value, a number here.
\<close>

record 'u engine =
  params :: hyper
  dataloader :: "nat list option"
  sigint :: bool
  own_attrs :: "(string \<times> pyval) list"
  init_done :: bool
  subclass_names :: "string list"
  logged :: "log_record list"
  user :: 'u

datatype engval =
  EParams hyper | ELoader "nat list" | EBool bool | ELogger | EAttr pyval | EClassAttr string

text \<open>The names a class found on the resolution order of an engine binds: those of the
  body of \<^verbatim>\<open>Engine\<close>; \<^verbatim>\<open>__slots__\<close>, bound to \<^verbatim>\<open>()\<close> by the body of \<^verbatim>\<open>abc.ABC\<close>;
  \<^verbatim>\<open>__abstractmethods__\<close> and \<^verbatim>\<open>_abc_impl\<close>, which the metaclass stores on the class; and
  those of \<^verbatim>\<open>object\<close>.\<close>

definition engine_class_names :: "string list" where
  "engine_class_names =
     [''_epoch_start'', ''_epoch_end'', ''_batch_start'', ''_batch_end'',
      ''__init__'', ''__call__'', ''__getattr__'', ''_Engine__sigint_handler'', ''log'',
      ''_run_hooks'', ''epoch_start'', ''epoch_end'', ''batch_start'', ''batch_end'', ''start'',
      ''process_batch'', ''train_batch'', ''quit'', ''__slots__'', ''__abstractmethods__'',
      ''_abc_impl'']
     @ object_names"

text \<open>What the normal attribute lookup finds on an engine: the instance dictionary, then
  the class attributes.\<close>

definition engine_native :: "'u engine \<Rightarrow> string \<Rightarrow> engval option" where
  "engine_native e name =
     (if name = ''params'' then Some (EParams (params e))
      else if name = ''dataloader'' \<and> dataloader e \<noteq> None then map_option ELoader (dataloader e)
      else if name = ''sigint'' then Some (EBool (sigint e))
      else if name = ''_Engine__log'' then Some ELogger
      else if name = ''_init_done'' then Some (EBool (init_done e))
      else (case map_of (own_attrs e) name of
              Some v \<Rightarrow> Some (EAttr v)
            | None \<Rightarrow>
                if name \<in> set engine_class_names \<or> name \<in> set (subclass_names e)
                then Some (EClassAttr name) else None))"

text \<open>\<^verbatim>\<open>__getattr__\<close> (lines 113 to 117), which Python calls when the normal lookup
  fails.\<close>

definition engine_getattr_hook :: "'u engine \<Rightarrow> string \<Rightarrow> py_error + engval" where
  "engine_getattr_hook e name =
     (case hasattr_hp (params e) name of
        Inl err \<Rightarrow> Inl err
      | Inr found \<Rightarrow>
          if found then
            (case hp_getattr (params e) name of Inl err \<Rightarrow> Inl err | Inr v \<Rightarrow> Inr (EAttr v))
          else Inl AttributeError)"

definition engine_getattr :: "'u engine \<Rightarrow> string \<Rightarrow> py_error + engval" where
  "engine_getattr e name =
     (case engine_native e name of Some v \<Rightarrow> Inr v | None \<Rightarrow> engine_getattr_hook e name)"

definition hasattr_engine :: "'u engine \<Rightarrow> string \<Rightarrow> py_error + bool" where
  "hasattr_engine e name =
     (case engine_getattr e name of
        Inr _ \<Rightarrow> Inr True
      | Inl err \<Rightarrow> if err = AttributeError then Inr False else Inl err)"

definition log_msg :: "log_level \<Rightarrow> string \<Rightarrow> 'u engine \<Rightarrow> 'u engine" where
  "log_msg lvl msg e = e\<lparr>logged := logged e @ [(lvl, msg)]\<rparr>"

text \<open>The loop over \<^verbatim>\<open>kwargs\<close> of \<^verbatim>\<open>Engine.__init__\<close>; \<^verbatim>\<open>_init_done\<close> is still false, so
  \<^verbatim>\<open>setattr\<close> writes the instance dictionary.\<close>

fun engine_kwargs :: "(string \<times> pyval) list \<Rightarrow> 'u engine \<Rightarrow> py_error + 'u engine" where
  "engine_kwargs [] e = Inr e"
| "engine_kwargs (kv # rest) e =
     (case hasattr_engine e (fst kv) of
        Inl err \<Rightarrow> Inl err
      | Inr found \<Rightarrow>
          if \<not> found then engine_kwargs rest (e\<lparr>own_attrs := own_attrs e @ [kv]\<rparr>)
          else engine_kwargs rest (log_msg Warn (fst kv @ '' attribute already exists on engine.'') e))"

definition no_loader_warning :: string where
  "no_loader_warning =
     ''No dataloader given, make sure to have a self.dataloader property for this engine to work with.''"

definition Engine_init ::
  "hyper \<Rightarrow> nat list option \<Rightarrow> (string \<times> pyval) list \<Rightarrow> string list \<Rightarrow> log_record list \<Rightarrow> 'u
     \<Rightarrow> py_error + 'u engine" where
  "Engine_init ps loader kwargs names logs0 u =
     (let e0 = \<lparr>params = ps, dataloader = loader, sigint = False, own_attrs = [],
                init_done = False, subclass_names = names, logged = logs0, user = u\<rparr>;
          e1 = (if loader \<noteq> None then e0 else log_msg Warn no_loader_warning e0)
      in case engine_kwargs kwargs e1 of
           Inl err \<Rightarrow> Inl err
         | Inr e2 \<Rightarrow> Inr (e2\<lparr>init_done := True\<rparr>))"

text \<open>The handler installed for \<^verbatim>\<open>SIGINT\<close> (lines 125 to 128).\<close>

definition sigint_notice :: log_record where
  "sigint_notice = (Debug, ''SIGINT caught. Waiting for gracefull exit'')"

definition sigint_handler :: "'u engine \<Rightarrow> 'u engine" where
  "sigint_handler e = (if \<not> sigint e then (e\<lparr>logged := logged e @ [sigint_notice]\<rparr>)\<lparr>sigint := True\<rparr> else e)"

section \<open>Engine: the training cycle\<close>

text \<open>
  The extension points of the subclass and the meaning of the registered callbacks are
  state transformers on the engine: a callback receives the engine, or reaches it
  otherwise, and may change any of it, the counters and the interrupt flag included.
  \<^verbatim>\<open>self.batch\<close>, \<^verbatim>\<open>self.epoch\<close>, \<^verbatim>\<open>self.batch_subdivisions\<close> and \<^verbatim>\<open>self.network\<close> are not
  attributes of the engine: reads go through \<^verbatim>\<open>__getattr__\<close> and writes through
  \<^verbatim>\<open>__setattr__\<close> to the parameter object, so the model reads and writes \<open>params\<close>. The
  hook tables are the dictionaries the class resolves, fixed while the cycle runs.
\<close>

record 'u impl =
  start :: "'u engine \<Rightarrow> 'u engine"
  process_batch :: "nat \<Rightarrow> 'u engine \<Rightarrow> 'u engine"
  train_batch :: "'u engine \<Rightarrow> 'u engine"
  quit :: "'u engine \<Rightarrow> bool \<times> 'u engine"
  invoke :: "callback \<Rightarrow> call_style \<Rightarrow> 'u engine \<Rightarrow> 'u engine"

record hook_tables =
  t_epoch_start :: table
  t_epoch_end :: table
  t_batch_start :: table
  t_batch_end :: table

text \<open>What the cycle did, in order: a call of \<^verbatim>\<open>_run_hooks\<close> with its value and the
  callbacks it fired, a call of \<^verbatim>\<open>process_batch\<close> with the position and the mini-batch,
  a call of \<^verbatim>\<open>train_batch\<close>.\<close>

datatype event =
  Dispatch hook_kind int "firing list"
  | ProcessBatch nat nat
  | TrainBatch

datatype 's flow = Continue 's | Break 's | Return 's

definition add_batch :: "int \<Rightarrow> 'u engine \<Rightarrow> 'u engine" where
  "add_batch d s = s\<lparr>params := (params s)\<lparr>batch := batch (params s) + d\<rparr>\<rparr>"

definition add_epoch :: "int \<Rightarrow> 'u engine \<Rightarrow> 'u engine" where
  "add_epoch d s = s\<lparr>params := (params s)\<lparr>epoch := epoch (params s) + d\<rparr>\<rparr>"

text \<open>The body of the \<^verbatim>\<open>for\<close> loop (lines 80 to 103) at position \<open>idx\<close> of a loader of
  length \<open>n\<close>.\<close>

definition batch_iter ::
  "'u impl \<Rightarrow> hook_tables \<Rightarrow> nat \<Rightarrow> nat \<Rightarrow> nat \<Rightarrow> 'u engine
     \<Rightarrow> py_error + event list \<times> 'u engine flow" where
  "batch_iter I T n idx data s =
     (let s1 = add_batch 1 s
      in case run_hooks (invoke I) (batch (params s1)) (t_batch_start T) s1 of
           Inl e \<Rightarrow> Inl e
         | Inr r1 \<Rightarrow>
             (let ev1 = Dispatch BatchStart (batch (params s1)) (fst r1);
                  s3 = process_batch I data (snd r1)
              in case batch_subdivisions (params s3) of
                   Inl e \<Rightarrow> Inl e
                 | Inr d \<Rightarrow>
                     if d = 0 then Inl ZeroDivisionError
                     else if (int idx + 1) mod d \<noteq> 0
                     then Inr ([ev1, ProcessBatch idx data], Continue (add_batch (- 1) s3))
                     else
                       (let s4 = train_batch I s3
                        in case run_hooks (invoke I) (batch (params s4)) (t_batch_end T) s4 of
                             Inl e \<Rightarrow> Inl e
                           | Inr r2 \<Rightarrow>
                               (let evs = [ev1, ProcessBatch idx data, TrainBatch,
                                           Dispatch BatchEnd (batch (params s4)) (fst r2)];
                                    q = quit I (snd r2)
                                in if fst q \<or> sigint (snd q)
                                   then Inr (evs, Return (log_msg Info ''Reached quitting criteria'' (snd q)))
                                   else
                                     (case batch_subdivisions (params (snd q)) of
                                        Inl e \<Rightarrow> Inl e
                                      | Inr d' \<Rightarrow>
                                          if int n - int idx \<le> d' then Inr (evs, Break (snd q))
                                          else Inr (evs, Continue (snd q)))))))"

text \<open>The \<^verbatim>\<open>for\<close> loop over \<^verbatim>\<open>enumerate(loader)\<close> from position \<open>idx\<close> on. The boolean
  says whether the cycle returned from inside the loop.\<close>

fun batch_loop ::
  "'u impl \<Rightarrow> hook_tables \<Rightarrow> nat \<Rightarrow> nat \<Rightarrow> nat list \<Rightarrow> 'u engine
     \<Rightarrow> py_error + event list \<times> bool \<times> 'u engine" where
  "batch_loop I T n idx [] s = Inr ([], False, s)"
| "batch_loop I T n idx (data # rest) s =
     (case batch_iter I T n idx data s of
        Inl e \<Rightarrow> Inl e
      | Inr r \<Rightarrow>
          (case snd r of
             Continue s' \<Rightarrow>
               (case batch_loop I T n (Suc idx) rest s' of
                  Inl e \<Rightarrow> Inl e
                | Inr r' \<Rightarrow> Inr (fst r @ fst r', snd r'))
           | Break s' \<Rightarrow> Inr (fst r, False, s')
           | Return s' \<Rightarrow> Inr (fst r, True, s')))"

text \<open>One pass of the body of \<^verbatim>\<open>while True\<close> (lines 74 to 111). A missing data loader is
  an \<^verbatim>\<open>AttributeError\<close> (a parameter object that itself has a \<^verbatim>\<open>dataloader\<close> attribute
  is not modelled).\<close>

definition run_epoch ::
  "'u impl \<Rightarrow> hook_tables \<Rightarrow> 'u engine \<Rightarrow> py_error + event list \<times> bool \<times> 'u engine" where
  "run_epoch I T s =
     (let s1 = add_epoch 1 s
      in case run_hooks (invoke I) (epoch (params s1)) (t_epoch_start T) s1 of
           Inl e \<Rightarrow> Inl e
         | Inr r1 \<Rightarrow>
             (let ev1 = Dispatch EpochStart (epoch (params s1)) (fst r1)
              in case dataloader (snd r1) of
                   None \<Rightarrow> Inl AttributeError
                 | Some loader \<Rightarrow>
                     (case batch_loop I T (length loader) 0 loader (snd r1) of
                        Inl e \<Rightarrow> Inl e
                      | Inr rb \<Rightarrow>
                          if fst (snd rb) then Inr (ev1 # fst rb, True, snd (snd rb))
                          else
                            (let s3 = snd (snd rb)
                             in case run_hooks (invoke I) (epoch (params s3)) (t_epoch_end T) s3 of
                                  Inl e \<Rightarrow> Inl e
                                | Inr r2 \<Rightarrow>
                                    (let evs = ev1 # fst rb @ [Dispatch EpochEnd (epoch (params s3)) (fst r2)];
                                         q = quit I (snd r2)
                                     in if fst q \<or> sigint (snd q)
                                        then Inr (evs, True,
                                                  log_msg Info ''Reached quitting criteria'' (snd q))
                                        else Inr (evs, False, snd q))))))"

text \<open>\<^verbatim>\<open>while True\<close>: not returning is the value \<open>None\<close>.\<close>

partial_function (option) epochs ::
  "'u impl \<Rightarrow> hook_tables \<Rightarrow> event list \<Rightarrow> 'u engine \<Rightarrow> (py_error + event list \<times> 'u engine) option" where
  "epochs I T acc s =
     (case run_epoch I T s of
        Inl e \<Rightarrow> Some (Inl e)
      | Inr r \<Rightarrow>
          if fst (snd r) then Some (Inr (acc @ fst r, snd (snd r)))
          else epochs I T (acc @ fst r) (snd (snd r)))"

text \<open>\<^verbatim>\<open>Engine.__call__\<close>.\<close>

definition engine_call ::
  "'u impl \<Rightarrow> hook_tables \<Rightarrow> 'u engine \<Rightarrow> (py_error + event list \<times> 'u engine) option" where
  "engine_call I T s =
     (let s0 = start I s;
          s1 = log_msg Info ''Start training'' s0;
          s2 = s1\<lparr>params := (params s1)\<lparr>network := net_train (network (params s1))\<rparr>\<rparr>
      in epochs I T [] s2)"

section \<open>Specification functions and concrete inputs\<close>

text \<open>What a dispatch on \<open>v\<close> fires when it visits the keys \<open>ks\<close> of a table, and the state
  it leaves: the statements below compare \<open>run_hooks\<close> with these.\<close>

definition firing_plan :: "int \<Rightarrow> table \<Rightarrow> int list \<Rightarrow> firing list" where
  "firing_plan v hooks ks =
     concat (map (\<lambda>k. if v mod k = 0
                       then map (\<lambda>fn. (k, fn, style_of fn))
                              (case map_of hooks k of None \<Rightarrow> [] | Some fns \<Rightarrow> fns)
                       else []) ks)"

definition apply_firings :: "(callback \<Rightarrow> call_style \<Rightarrow> 's \<Rightarrow> 's) \<Rightarrow> firing list \<Rightarrow> 's \<Rightarrow> 's" where
  "apply_firings sem fs s = fold (\<lambda>f. sem (fst (snd f)) (snd (snd f))) fs s"

definition demo_net :: network where
  "demo_net = \<lparr>net_params = [(''w'', 0)], net_device = Cpu, training = False\<rparr>"

definition demo_params :: hyper where
  "demo_params =
     \<lparr>network = demo_net, batch_size = 8, batch = 0, epoch = 0, mini_batch_size = 4,
      optimizers = None, schedulers = None,
      no_serialize = [''network'', ''optimizers'', ''schedulers''], extra = []\<rparr>"

definition demo_loader :: "nat list" where
  "demo_loader = [0, 1, 2, 3, 4, 5, 6, 7, 8, 9]"

definition demo_engine :: "unit engine" where
  "demo_engine =
     \<lparr>params = demo_params, dataloader = Some demo_loader, sigint = False, own_attrs = [],
      init_done = True, subclass_names = [], logged = [], user = ()\<rparr>"

definition demo_table :: table where
  "demo_table = [(2, [Callback 0 False, Callback 1 True]), (3, [Callback 2 False])]"

text \<open>A meaning for the callbacks of \<open>demo_table\<close> on a state that lists the calls made.\<close>

definition demo_sem :: "callback \<Rightarrow> call_style \<Rightarrow> nat list \<Rightarrow> nat list" where
  "demo_sem fn st s = s @ [cb_id fn]"

text \<open>The classes of a program that defines two subclasses \<^verbatim>\<open>A\<close> and \<^verbatim>\<open>B\<close> of
  \<^verbatim>\<open>Engine\<close> whose bodies bind no table of their own, before and after
  \<^verbatim>\<open>A.epoch_start(1)(fn)\<close>.\<close>

definition store_AB :: class_store where
  "store_AB =
     \<lparr>classes =
        [(''Engine'',
          \<lparr>mro = [''Engine''],
           cattrs = [(''_epoch_start'', 0), (''_epoch_end'', 1),
                     (''_batch_start'', 2), (''_batch_end'', 3)]\<rparr>),
         (''A'', \<lparr>mro = [''A'', ''Engine''], cattrs = []\<rparr>),
         (''B'', \<lparr>mro = [''B'', ''Engine''], cattrs = []\<rparr>)],
      heap = [(0, []), (1, []), (2, []), (3, [])]\<rparr>"

definition store_AB_hooked :: class_store where
  "store_AB_hooked = store_AB\<lparr>heap := [(0, [(1, [Callback 0 False])]), (1, []), (2, []), (3, [])]\<rparr>"

text \<open>
  What the callbacks must leave alone for a statement about the cycle to hold: \<open>keeps g f\<close>
  says the transformer \<open>f\<close> does not change the observation \<open>g\<close> of the engine, and
  \<open>frame g I\<close> says so of every extension point and registered callback of \<open>I\<close>. The
  observations are the batch counter with the two batch sizes, and the interrupt flag with
  the data loader.
\<close>

definition counts :: "'u engine \<Rightarrow> int \<times> int \<times> int" where
  "counts s = (batch (params s), batch_size (params s), mini_batch_size (params s))"

definition flags :: "'u engine \<Rightarrow> bool \<times> nat list option" where
  "flags s = (sigint s, dataloader s)"

definition keeps :: "('s \<Rightarrow> 'a) \<Rightarrow> ('s \<Rightarrow> 's) \<Rightarrow> bool" where
  "keeps g f \<longleftrightarrow> (\<forall>s. g (f s) = g s)"

definition frame :: "('u engine \<Rightarrow> 'a) \<Rightarrow> 'u impl \<Rightarrow> bool" where
  "frame g I \<longleftrightarrow>
     (\<forall>x. keeps g (process_batch I x)) \<and> keeps g (train_batch I)
     \<and> keeps g (\<lambda>s. snd (quit I s)) \<and> (\<forall>fn st. keeps g (invoke I fn st))"

text \<open>Readings of the list of events: the number of calls of \<^verbatim>\<open>train_batch\<close>, the
  mini-batches passed to \<^verbatim>\<open>process_batch\<close> with their positions, and the dispatches on one
  of the four tables, each with its value and the callbacks it fired.\<close>

definition train_count :: "event list \<Rightarrow> nat" where
  "train_count evs = length (filter (\<lambda>e. e = TrainBatch) evs)"

definition processed :: "event list \<Rightarrow> (nat \<times> nat) list" where
  "processed evs = concat (map (\<lambda>e. case e of ProcessBatch i x \<Rightarrow> [(i, x)] | _ \<Rightarrow> []) evs)"

definition dispatched :: "hook_kind \<Rightarrow> event list \<Rightarrow> (int \<times> firing list) list" where
  "dispatched kind evs =
     concat (map (\<lambda>e. case e of Dispatch k v fs \<Rightarrow> if k = kind then [(v, fs)] else [] | _ \<Rightarrow> []) evs)"

definition plan_of :: "int \<Rightarrow> table \<Rightarrow> firing list" where
  "plan_of v tbl = firing_plan v tbl (map fst tbl)"

text \<open>The events of a run.\<close>

definition events_of :: "py_error + event list \<times> 'a \<Rightarrow> event list" where
  "events_of r = (case r of Inl e \<Rightarrow> [] | Inr x \<Rightarrow> fst x)"

text \<open>A subclass that counts the calls of its two required extension points and never
  quits; an engine for it over ten mini-batches, with \<open>batch_size = 8\<close> and
  \<open>mini_batch_size = 4\<close>; empty hook tables, and tables with one batch-start hook at
  interval 1.\<close>

definition counting_impl :: "(nat \<times> nat) impl" where
  "counting_impl =
     \<lparr>start = (\<lambda>s. s),
      process_batch = (\<lambda>x s. s\<lparr>user := (Suc (fst (user s)), snd (user s))\<rparr>),
      train_batch = (\<lambda>s. s\<lparr>user := (fst (user s), Suc (snd (user s)))\<rparr>),
      quit = (\<lambda>s. (False, s)),
      invoke = (\<lambda>fn st s. s)\<rparr>"

definition counting_engine :: "(nat \<times> nat) engine" where
  "counting_engine =
     \<lparr>params = demo_params, dataloader = Some demo_loader, sigint = False, own_attrs = [],
      init_done = True, subclass_names = [], logged = [], user = (0, 0)\<rparr>"

definition no_hooks :: hook_tables where
  "no_hooks = \<lparr>t_epoch_start = [], t_epoch_end = [], t_batch_start = [], t_batch_end = []\<rparr>"

definition one_hook :: hook_tables where
  "one_hook = \<lparr>t_epoch_start = [], t_epoch_end = [],
               t_batch_start = [(1, [Callback 0 False])], t_batch_end = []\<rparr>"

text \<open>
  What the claims say one mini-batch does, written from their words and compared with
  \<open>batch_iter\<close> below. A mini-batch that does not complete its group: the counter goes up
  by one, the batch-start callbacks planned for the new value are called in order, the
  mini-batch is processed, and the counter goes back. The mini-batch that completes the
  group: the same without the way back, then \<^verbatim>\<open>train_batch\<close>, the batch-end callbacks
  planned for the same value, and the question \<^verbatim>\<open>quit\<close>, whose answer is returned with the
  state.
\<close>

definition partial_minibatch :: "'u impl \<Rightarrow> hook_tables \<Rightarrow> nat \<Rightarrow> 'u engine \<Rightarrow> 'u engine" where
  "partial_minibatch I T x s =
     add_batch (- 1)
       (process_batch I x
          (apply_firings (invoke I) (plan_of (batch (params s) + 1) (t_batch_start T))
             (add_batch 1 s)))"

definition closing_minibatch ::
  "'u impl \<Rightarrow> hook_tables \<Rightarrow> nat \<Rightarrow> 'u engine \<Rightarrow> bool \<times> 'u engine" where
  "closing_minibatch I T x s =
     quit I
       (apply_firings (invoke I) (plan_of (batch (params s) + 1) (t_batch_end T))
          (train_batch I
             (process_batch I x
                (apply_firings (invoke I) (plan_of (batch (params s) + 1) (t_batch_start T))
                   (add_batch 1 s)))))"

text \<open>The events of the mini-batches \<open>xs\<close>, at the positions from \<open>idx\<close> on, when none of
  them completes a group and the dispatches receive the value \<open>v\<close>; the events of a whole
  group; and the events of \<open>k\<close> groups of \<open>D\<close> mini-batches in a row, the first of them
  with the value \<open>v\<close>.\<close>

definition partial_events :: "hook_tables \<Rightarrow> int \<Rightarrow> nat \<Rightarrow> nat list \<Rightarrow> event list" where
  "partial_events T v idx xs =
     concat (map (\<lambda>ix. [Dispatch BatchStart v (plan_of v (t_batch_start T)),
                         ProcessBatch (fst ix) (snd ix)])
               (zip [idx ..< idx + length xs] xs))"

definition group_events :: "hook_tables \<Rightarrow> int \<Rightarrow> nat \<Rightarrow> nat list \<Rightarrow> event list" where
  "group_events T v idx xs =
     partial_events T v idx xs @ [TrainBatch, Dispatch BatchEnd v (plan_of v (t_batch_end T))]"

fun groups_events :: "hook_tables \<Rightarrow> nat \<Rightarrow> int \<Rightarrow> nat \<Rightarrow> nat \<Rightarrow> nat list \<Rightarrow> event list" where
  "groups_events T D v idx 0 xs = []"
| "groups_events T D v idx (Suc k) xs =
     group_events T v idx (take D xs) @ groups_events T D (v + 1) (idx + D) k (drop D xs)"

text \<open>A subclass that counts the calls of \<^verbatim>\<open>process_batch\<close>, of \<^verbatim>\<open>train_batch\<close> and of
  its registered callbacks, in this order, and never quits; an engine for it over a given
  loader, with \<open>batch_size = 8\<close> and \<open>mini_batch_size = 4\<close>.\<close>

definition tally_impl :: "(nat \<times> nat \<times> nat) impl" where
  "tally_impl =
     \<lparr>start = (\<lambda>s. s),
      process_batch = (\<lambda>x s. s\<lparr>user := (Suc (fst (user s)), snd (user s))\<rparr>),
      train_batch = (\<lambda>s. s\<lparr>user := (fst (user s), Suc (fst (snd (user s))), snd (snd (user s)))\<rparr>),
      quit = (\<lambda>s. (False, s)),
      invoke = (\<lambda>fn st s. s\<lparr>user := (fst (user s), fst (snd (user s)), Suc (snd (snd (user s))))\<rparr>)\<rparr>"

definition tally_engine :: "nat list \<Rightarrow> (nat \<times> nat \<times> nat) engine" where
  "tally_engine loader =
     \<lparr>params = demo_params, dataloader = Some loader, sigint = False, own_attrs = [],
      init_done = True, subclass_names = [], logged = [], user = (0, 0, 0)\<rparr>"

text \<open>
  The attributes \<^verbatim>\<open>__init__\<close> always sets, by name and as entries of the instance
  dictionary; the properties of the class; and the three attributes whose saved form is a
  snapshot of the object's state.
\<close>

definition fixed_names :: "string list" where
  "fixed_names =
     [''network'', ''batch_size'', ''batch'', ''epoch'', ''mini_batch_size'', ''optimizers'',
      ''schedulers'', ''_HyperParameters__no_serialize'']"

definition fixed_vars :: "hyper \<Rightarrow> (string \<times> pyval) list" where
  "fixed_vars p =
     [(''network'', NetV (network p)),
      (''batch_size'', IntV (batch_size p)),
      (''batch'', IntV (batch p)),
      (''epoch'', IntV (epoch p)),
      (''mini_batch_size'', IntV (mini_batch_size p)),
      (''optimizers'', optsval (optimizers p)),
      (''schedulers'', schedsval (schedulers p)),
      (''_HyperParameters__no_serialize'', NamesV (no_serialize p))]"

definition property_names :: "string list" where
  "property_names = [''optimizer'', ''scheduler'', ''batch_subdivisions'']"


text \<open>
  The record stands for an object \<^verbatim>\<open>__init__\<close> has built when the attributes made from
  keyword arguments are a dictionary (no name twice) and none of them is a name
  \<^verbatim>\<open>hasattr\<close> finds on a new object: an attribute \<^verbatim>\<open>__init__\<close> sets, a property, or
  another attribute of the class. Two stores have the same shapes when their networks have
  the same parameter names and their optimizers and schedulers are both absent or
  sequences of the same length.
\<close>

definition wf_hyper :: "hyper \<Rightarrow> bool" where
  "wf_hyper p \<longleftrightarrow>
     distinct (map fst (extra p))
     \<and> set (map fst (extra p)) \<inter> (set fixed_names \<union> set property_names \<union> set hp_methods) = {}"






section \<open>HyperParameters: construction\<close>

lemma hasattr_not_ValueError: "hasattr_hp p k \<noteq> Inl ValueError"
  by (auto simp: hasattr_hp_def hp_getattr_def first_of_def batch_subdivisions_def
      split: sum.splits option.splits list.splits if_splits)

lemma kwarg_step_not_ValueError: "kwarg_step kv st \<noteq> Inl ValueError"
  using hasattr_not_ValueError
  by (auto simp: kwarg_step_def Let_def split: sum.splits)

lemma init_kwargs_not_ValueError: "init_kwargs kw st \<noteq> Inl ValueError"
  by (induction kw arbitrary: st) (auto simp: kwarg_step_not_ValueError split: sum.splits)

lemma kwarg_step_frame:
  "kwarg_step kv st = Inr st' \<Longrightarrow>
     mini_batch_size (snd st') = mini_batch_size (snd st) \<and> batch_size (snd st') = batch_size (snd st)
     \<and> optimizers (snd st') = optimizers (snd st) \<and> schedulers (snd st') = schedulers (snd st)"
  by (auto simp: kwarg_step_def Let_def split: sum.splits if_splits)

lemma init_kwargs_frame:
  "init_kwargs kw st = Inr st' \<Longrightarrow>
     mini_batch_size (snd st') = mini_batch_size (snd st) \<and> batch_size (snd st') = batch_size (snd st)
     \<and> optimizers (snd st') = optimizers (snd st) \<and> schedulers (snd st') = schedulers (snd st)"
proof (induction kw arbitrary: st)
  case Nil
  then show ?case by simp
next
  case (Cons kv rest)
  then obtain st1 where s: "kwarg_step kv st = Inr st1" and r: "init_kwargs rest st1 = Inr st'"
    by (auto split: sum.splits)
  from Cons.IH[OF r] kwarg_step_frame[OF s] show ?case by simp
qed

lemma hasattr_total:
  "k \<noteq> ''optimizer'' \<Longrightarrow> k \<noteq> ''scheduler'' \<Longrightarrow> mini_batch_size p \<noteq> 0
     \<Longrightarrow> \<exists>b. hasattr_hp p k = Inr b"
  by (auto simp: hasattr_hp_def hp_getattr_def batch_subdivisions_def split: sum.splits option.splits)

lemma kwarg_step_total:
  assumes "kwarg_name (fst kv) \<noteq> ''optimizer''" and "kwarg_name (fst kv) \<noteq> ''scheduler''"
    and "mini_batch_size (snd st) \<noteq> 0"
  shows "\<exists>st'. kwarg_step kv st = Inr st'"
proof -
  define p1 where "p1 = (if startswith_underscore (fst kv)
      then (snd st)\<lparr>no_serialize := no_serialize (snd st) @ [kwarg_name (fst kv)]\<rparr> else snd st)"
  have "mini_batch_size p1 \<noteq> 0" using assms(3) by (simp add: p1_def)
  from hasattr_total[OF assms(1,2) this]
  obtain b where "hasattr_hp p1 (kwarg_name (fst kv)) = Inr b" by blast
  then show ?thesis by (simp add: kwarg_step_def Let_def p1_def)
qed

lemma init_kwargs_total:
  assumes "\<forall>kv \<in> set kw. kwarg_name (fst kv) \<noteq> ''optimizer'' \<and> kwarg_name (fst kv) \<noteq> ''scheduler''"
    and "mini_batch_size (snd st) \<noteq> 0"
  shows "\<exists>st'. init_kwargs kw st = Inr st'"
  using assms
proof (induction kw arbitrary: st)
  case Nil
  then show ?case by simp
next
  case (Cons kv rest)
  from Cons.prems obtain st1 where s: "kwarg_step kv st = Inr st1"
    using kwarg_step_total[of kv st] by auto
  with kwarg_step_frame[OF s] Cons.prems have "mini_batch_size (snd st1) \<noteq> 0" by simp
  with Cons.IH[of st1] Cons.prems obtain st' where "init_kwargs rest st1 = Inr st'" by auto
  with s show ?case by simp
qed

text \<open>
  Claim C4. For positive \<open>batch_size\<close> and \<open>mini_batch_size\<close>, whatever the other
  arguments are, construction raises \<^verbatim>\<open>ValueError\<close> exactly when
  \<open>mini_batch_size \<le> batch_size\<close> and \<open>batch_size mod mini_batch_size \<noteq> 0\<close>. When
  \<open>mini_batch_size > batch_size\<close>, every object constructed has \<open>mini_batch_size\<close> equal to
  \<open>batch_size\<close>, and construction does return an object for every set of keyword arguments
  that does not name the properties \<^verbatim>\<open>optimizer\<close> and \<^verbatim>\<open>scheduler\<close> (whose getters
  \<^verbatim>\<open>hasattr\<close> would run).
\<close>

theorem init_fails_iff:
  assumes "0 < bs" and "0 < m"
  shows "(HyperParameters_init net opts scheds bs (Some m) kwargs = Inl ValueError
            \<longleftrightarrow> m \<le> bs \<and> bs mod m \<noteq> 0)
       \<and> (bs < m \<longrightarrow>
            (\<forall>lg p. HyperParameters_init net opts scheds bs (Some m) kwargs = Inr (lg, p)
                \<longrightarrow> mini_batch_size p = bs \<and> batch_size p = bs)
          \<and> ((\<forall>kv \<in> set kwargs. kwarg_name (fst kv) \<noteq> ''optimizer''
                                  \<and> kwarg_name (fst kv) \<noteq> ''scheduler'')
                \<longrightarrow> (\<exists>lg p. HyperParameters_init net opts scheds bs (Some m) kwargs = Inr (lg, p)
                       \<and> mini_batch_size p = bs \<and> batch_size p = bs)))"
proof (intro conjI impI allI)
  show "HyperParameters_init net opts scheds bs (Some m) kwargs = Inl ValueError
            \<longleftrightarrow> m \<le> bs \<and> bs mod m \<noteq> 0"
    using assms init_kwargs_not_ValueError
    by (auto simp: HyperParameters_init_def choose_mini_batch_size_def)
next
  fix lg p
  assume lt: "bs < m"
    and r: "HyperParameters_init net opts scheds bs (Some m) kwargs = Inr (lg, p)"
  from r lt init_kwargs_frame[of kwargs _ "(lg, p)"]
  show "mini_batch_size p = bs" "batch_size p = bs"
    by (auto simp: HyperParameters_init_def choose_mini_batch_size_def)
next
  assume lt: "bs < m"
    and ok: "\<forall>kv \<in> set kwargs. kwarg_name (fst kv) \<noteq> ''optimizer''
                                \<and> kwarg_name (fst kv) \<noteq> ''scheduler''"
  define st0 where "st0 = ([] :: log_record list,
      \<lparr>network = net, batch_size = bs, batch = 0, epoch = 0, mini_batch_size = bs,
       optimizers = normalize_seq opts, schedulers = normalize_seq scheds,
       no_serialize = [''network'', ''optimizers'', ''schedulers''], extra = []\<rparr>)"
  have "mini_batch_size (snd st0) \<noteq> 0" using assms by (simp add: st0_def)
  from init_kwargs_total[OF ok this] obtain st' where st': "init_kwargs kwargs st0 = Inr st'"
    by blast
  from init_kwargs_frame[OF st']
  have "mini_batch_size (snd st') = bs" "batch_size (snd st') = bs"
    by (simp_all add: st0_def)
  with st' lt
  show "\<exists>lg p. HyperParameters_init net opts scheds bs (Some m) kwargs = Inr (lg, p)
                       \<and> mini_batch_size p = bs \<and> batch_size p = bs"
    by (cases st') (auto simp: HyperParameters_init_def choose_mini_batch_size_def st0_def)
qed

theorem init_fails_iff_witness:
  "HyperParameters_init demo_net ArgNone ArgNone 8 (Some 3) [] = Inl ValueError
   \<and> HyperParameters_init demo_net ArgNone ArgNone 8 (Some 4) [] \<noteq> Inl ValueError
   \<and> (\<exists>lg p. HyperParameters_init demo_net ArgNone ArgNone 4 (Some 8) [(''_tag'', IntV 7)] = Inr (lg, p)
         \<and> mini_batch_size p = 4 \<and> batch_size p = 4)"
  using init_fails_iff[of 8 3 demo_net ArgNone ArgNone "[]"]
        init_fails_iff[of 8 4 demo_net ArgNone ArgNone "[]"]
        init_fails_iff[of 4 8 demo_net ArgNone ArgNone "[(''_tag'', IntV 7)]"]
  by (simp add: kwarg_name_def startswith_underscore_def)

text \<open>
  Claim C3, at the input \<^verbatim>\<open>HyperParameters(net, _foo=1, foo=2)\<close>. After the first keyword
  argument alone, \<^verbatim>\<open>foo\<close> holds 1 and is on the exclusion list. The second keyword
  argument collides with it: the warning is logged and the value stays 1, but \<^verbatim>\<open>foo\<close> is
  taken off the exclusion list, so the collision changes its serialization status.
\<close>

theorem exclusion_lost_on_collision:
  "HyperParameters_init demo_net ArgNone ArgNone 1 None [(''_foo'', IntV 1)]
     = Inr ([], \<lparr>network = demo_net, batch_size = 1, batch = 0, epoch = 0, mini_batch_size = 1,
                 optimizers = None, schedulers = None,
                 no_serialize = [''network'', ''optimizers'', ''schedulers'', ''foo''],
                 extra = [(''foo'', IntV 1)]\<rparr>)
   \<and> HyperParameters_init demo_net ArgNone ArgNone 1 None [(''_foo'', IntV 1), (''foo'', IntV 2)]
     = Inr ([exists_warning ''foo''],
            \<lparr>network = demo_net, batch_size = 1, batch = 0, epoch = 0, mini_batch_size = 1,
             optimizers = None, schedulers = None,
             no_serialize = [''network'', ''optimizers'', ''schedulers''],
             extra = [(''foo'', IntV 1)]\<rparr>)"
  by (simp add: HyperParameters_init_def choose_mini_batch_size_def kwarg_step_def kwarg_name_def
      startswith_underscore_def hasattr_hp_def hp_getattr_def vars_hp_def hp_methods_def
      object_names_def normalize_seq_def optsval_def schedsval_def Let_def)

section \<open>HyperParameters: device migration\<close>

text \<open>
  Claim C9. Construction accepts absent optimizers and absent schedulers, and on every
  object constructed with either of them absent \<^verbatim>\<open>to(device)\<close> raises \<^verbatim>\<open>TypeError\<close>: it
  never returns.
\<close>

theorem to_device_raises_without_sequences:
  "(HyperParameters_init net opts scheds bs mbs kwargs = Inr (lg, p)
      \<and> (opts = ArgNone \<or> scheds = ArgNone) \<longrightarrow> to_device d p = Inl TypeError)
   \<and> (\<exists>lg' p'. HyperParameters_init net ArgNone ArgNone 1 None [] = Inr (lg', p'))"
proof (intro conjI impI)
  assume a: "HyperParameters_init net opts scheds bs mbs kwargs = Inr (lg, p)
      \<and> (opts = ArgNone \<or> scheds = ArgNone)"
  then obtain m where "init_kwargs kwargs ([],
      \<lparr>network = net, batch_size = bs, batch = 0, epoch = 0, mini_batch_size = m,
       optimizers = normalize_seq opts, schedulers = normalize_seq scheds,
       no_serialize = [''network'', ''optimizers'', ''schedulers''], extra = []\<rparr>) = Inr (lg, p)"
    by (auto simp: HyperParameters_init_def split: sum.splits)
  from init_kwargs_frame[OF this]
  have "optimizers p = normalize_seq opts" "schedulers p = normalize_seq scheds"
    by simp_all
  with a show "to_device d p = Inl TypeError"
    by (auto simp: to_device_def normalize_seq_def Let_def split: option.splits)
next
  show "\<exists>lg' p'. HyperParameters_init net ArgNone ArgNone 1 None [] = Inr (lg', p')"
    by (simp add: HyperParameters_init_def choose_mini_batch_size_def)
qed

theorem to_device_raises_without_sequences_witness:
  "HyperParameters_init demo_net ArgNone ArgNone 8 (Some 4) [] = Inr ([], demo_params)
   \<and> to_device (Cuda 0) demo_params = Inl TypeError"
proof -
  have c: "HyperParameters_init demo_net ArgNone ArgNone 8 (Some 4) [] = Inr ([], demo_params)"
    by (simp add: HyperParameters_init_def choose_mini_batch_size_def normalize_seq_def
        demo_params_def)
  from to_device_raises_without_sequences[of demo_net ArgNone ArgNone 8 "Some 4" "[]" "[]"
      demo_params "Cuda 0"] c
  show ?thesis by blast
qed

section \<open>HyperParameters: the instance dictionary\<close>

lemma vars_hp_split: "vars_hp p = fixed_vars p @ extra p"
  by (simp add: vars_hp_def fixed_vars_def)

lemma fixed_keys: "map fst (fixed_vars p) = fixed_names"
  by (simp add: fixed_vars_def fixed_names_def)


lemma vars_hp_keys: "map fst (vars_hp p) = fixed_names @ map fst (extra p)"
  by (simp add: vars_hp_split fixed_keys)






section \<open>HyperParameters: saving and loading\<close>



















section \<open>HyperParameters: what the constructor builds\<close>

lemma hasattr_False:
  assumes "hasattr_hp p k = Inr False"
  shows "k \<notin> set property_names" and "map_of (vars_hp p) k = None" and "k \<notin> set hp_methods"
proof -
  show np: "k \<notin> set property_names"
  proof
    assume "k \<in> set property_names"
    then consider "k = ''optimizer''" | "k = ''scheduler''" | "k = ''batch_subdivisions''"
      unfolding property_names_def by fastforce
    then show False
    proof cases
      case 1
      with assms show False
        by (simp add: hasattr_hp_def hp_getattr_def first_of_def
            split: sum.splits option.splits list.splits if_splits)
    next
      case 2
      with assms show False
        by (simp add: hasattr_hp_def hp_getattr_def first_of_def
            split: sum.splits option.splits list.splits if_splits)
    next
      case 3
      with assms show False
        by (simp add: hasattr_hp_def hp_getattr_def batch_subdivisions_def
            split: sum.splits option.splits list.splits if_splits)
    qed
  qed
  then have n: "k \<noteq> ''optimizer''" "k \<noteq> ''scheduler''" "k \<noteq> ''batch_subdivisions''"
    unfolding property_names_def by simp_all
  show nv: "map_of (vars_hp p) k = None"
  proof (cases "map_of (vars_hp p) k")
    case None
    then show ?thesis .
  next
    case (Some v)
    have "hp_getattr p k = Inr v" unfolding hp_getattr_def using n Some by simp
    with assms show ?thesis by (simp add: hasattr_hp_def)
  qed
  show "k \<notin> set hp_methods"
  proof
    assume "k \<in> set hp_methods"
    then have "hp_getattr p k = Inr (MethodV k)" unfolding hp_getattr_def using n nv by simp
    with assms show False by (simp add: hasattr_hp_def)
  qed
qed

lemma kwarg_step_wf:
  assumes w: "wf_hyper (snd st)" and s: "kwarg_step kv st = Inr st'"
  shows "wf_hyper (snd st')"
proof -
  define key where "key = kwarg_name (fst kv)"
  define p1 where "p1 = (if startswith_underscore (fst kv)
      then (snd st)\<lparr>no_serialize := no_serialize (snd st) @ [key]\<rparr> else snd st)"
  have e1: "extra p1 = extra (snd st)" by (simp add: p1_def)
  have w1: "wf_hyper p1" using w by (simp add: wf_hyper_def e1)
  have ks: "kwarg_step kv st =
      (case hasattr_hp p1 key of
         Inl e \<Rightarrow> Inl e
       | Inr found \<Rightarrow>
           if \<not> found then Inr (fst st, p1\<lparr>extra := extra p1 @ [(key, snd kv)]\<rparr>)
           else Inr (fst st @ [exists_warning key],
                     if key \<in> set (no_serialize p1)
                     then p1\<lparr>no_serialize := remove1 key (no_serialize p1)\<rparr> else p1))"
    unfolding kwarg_step_def Let_def p1_def key_def by (rule refl)
  note s' = s[unfolded ks]
  have "\<exists>found. hasattr_hp p1 key = Inr found"
  proof (cases "hasattr_hp p1 key")
    case (Inl e)
    with s' show ?thesis by simp
  next
    case (Inr b)
    then show ?thesis by simp
  qed
  then obtain found where h: "hasattr_hp p1 key = Inr found" ..
  show ?thesis
  proof (cases found)
    case True
    with s' h have "extra (snd st') = extra p1"
      by (auto split: if_splits)
    with w1 show ?thesis by (simp add: wf_hyper_def)
  next
    case False
    with s' h have e': "extra (snd st') = extra p1 @ [(key, snd kv)]"
      by (auto split: if_splits)
    from h False have hf: "hasattr_hp p1 key = Inr False" by simp
    note hn = hasattr_False[OF hf]
    have "key \<notin> fst ` set (vars_hp p1)"
      using hn(2) by (simp add: map_of_eq_None_iff)
    then have "key \<notin> set (map fst (vars_hp p1))" by simp
    then have nf: "key \<notin> set fixed_names" and ne: "key \<notin> set (map fst (extra p1))"
      unfolding vars_hp_keys set_append by blast+
    from w1 have d: "distinct (map fst (extra p1))"
      and i: "set (map fst (extra p1)) \<inter> (set fixed_names \<union> set property_names \<union> set hp_methods) = {}"
      unfolding wf_hyper_def by blast+
    show ?thesis unfolding wf_hyper_def e' using d i hn(1) hn(3) nf ne by simp
  qed
qed

lemma init_kwargs_wf:
  "wf_hyper (snd st) \<Longrightarrow> init_kwargs kw st = Inr st' \<Longrightarrow> wf_hyper (snd st')"
proof (induction kw arbitrary: st)
  case Nil
  then show ?case by simp
next
  case (Cons kv rest)
  from Cons.prems(2) obtain st1 where s: "kwarg_step kv st = Inr st1"
    and r: "init_kwargs rest st1 = Inr st'"
    by (simp split: sum.splits)
  from Cons.IH[OF kwarg_step_wf[OF Cons.prems(1) s] r] show ?case .
qed

lemma HyperParameters_init_wf:
  assumes "HyperParameters_init net opts scheds bs mbs kwargs = Inr (lg, p)"
  shows "wf_hyper p"
proof -
  from assms obtain m where
    i: "init_kwargs kwargs
            ([], \<lparr>network = net, batch_size = bs, batch = 0, epoch = 0, mini_batch_size = m,
                  optimizers = normalize_seq opts, schedulers = normalize_seq scheds,
                  no_serialize = [''network'', ''optimizers'', ''schedulers''],
                  extra = []\<rparr>) = Inr (lg, p)"
    by (simp add: HyperParameters_init_def split: sum.splits)
  have "wf_hyper (snd (lg, p))"
    by (rule init_kwargs_wf[OF _ i]) (simp add: wf_hyper_def)
  then show ?thesis by simp
qed

section \<open>Engine: dispatch of the hooks\<close>

lemma call_hooks_result:
  "call_hooks sem k fns s =
     (map (\<lambda>fn. (k, fn, style_of fn)) fns,
      apply_firings sem (map (\<lambda>fn. (k, fn, style_of fn)) fns) s)"
  by (induction fns arbitrary: s) (auto simp: Let_def apply_firings_def style_of_def)

lemma apply_firings_append:
  "apply_firings sem (xs @ ys) s = apply_firings sem ys (apply_firings sem xs s)"
  by (simp add: apply_firings_def)

lemma run_hooks_keys_result:
  assumes "0 \<notin> set ks" and "set ks \<subseteq> fst ` set hooks"
  shows "run_hooks_keys sem v hooks ks s =
           Inr (firing_plan v hooks ks, apply_firings sem (firing_plan v hooks ks) s)"
  using assms
proof (induction ks arbitrary: s)
  case Nil
  then show ?case by (simp add: firing_plan_def apply_firings_def)
next
  case (Cons k ks)
  from Cons.prems have k0: "k \<noteq> 0" and kin: "k \<in> fst ` set hooks" by auto
  from kin obtain fns where m: "map_of hooks k = Some fns"
    by (metis domD dom_map_of_conv_image_fst)
  have plan: "firing_plan v hooks (k # ks) =
        (if v mod k = 0 then map (\<lambda>fn. (k, fn, style_of fn)) fns else []) @ firing_plan v hooks ks"
    by (simp add: firing_plan_def m)
  from Cons.prems have IH: "\<And>s. run_hooks_keys sem v hooks ks s =
           Inr (firing_plan v hooks ks, apply_firings sem (firing_plan v hooks ks) s)"
    using Cons.IH by auto
  show ?case
    by (simp add: k0 m call_hooks_result IH plan Let_def apply_firings_append apply_firings_def)
qed

lemma run_hooks_result:
  assumes "0 \<notin> set (map fst hooks)"
  shows "run_hooks sem v hooks s =
           Inr (firing_plan v hooks (map fst hooks),
                apply_firings sem (firing_plan v hooks (map fst hooks)) s)"
  unfolding run_hooks_def using assms by (intro run_hooks_keys_result) auto

lemma fired_under_one:
  "fired_under k (map (\<lambda>fn. (a, fn, style_of fn)) fns) = (if a = k then fns else [])"
  by (simp add: fired_under_def filter_map comp_def)

lemma fired_under_plan:
  assumes "distinct ks"
  shows "fired_under k (firing_plan v hooks ks) =
           (if k \<in> set ks \<and> v mod k = 0
            then (case map_of hooks k of None \<Rightarrow> [] | Some fns \<Rightarrow> fns) else [])"
  using assms
proof (induction ks)
  case Nil
  then show ?case by (simp add: firing_plan_def fired_under_def)
next
  case (Cons a ks)
  have split: "firing_plan v hooks (a # ks) =
      (if v mod a = 0
       then map (\<lambda>fn. (a, fn, style_of fn)) (case map_of hooks a of None \<Rightarrow> [] | Some fns \<Rightarrow> fns)
       else [])
        @ firing_plan v hooks ks"
    by (simp add: firing_plan_def)
  have fu: "\<And>xs ys. fired_under k (xs @ ys) = fired_under k xs @ fired_under k ys"
    by (simp add: fired_under_def)
  from Cons have IH: "fired_under k (firing_plan v hooks ks) =
           (if k \<in> set ks \<and> v mod k = 0
            then (case map_of hooks k of None \<Rightarrow> [] | Some fns \<Rightarrow> fns) else [])"
    by simp
  have nil: "fired_under k [] = []" by (simp add: fired_under_def)
  from Cons.prems have "a \<notin> set ks" by simp
  then show ?case
    unfolding split fu IH by (cases "a = k"; cases "v mod a = 0"; simp add: fired_under_one nil)
qed

lemma in_firing_plan:
  "(k, fn, st) \<in> set (firing_plan v hooks ks) \<longleftrightarrow>
     k \<in> set ks \<and> v mod k = 0
     \<and> fn \<in> set (case map_of hooks k of None \<Rightarrow> [] | Some fns \<Rightarrow> fns) \<and> st = style_of fn"
  by (induction ks) (auto simp: firing_plan_def)

lemma register_map_of:
  "map_of (register k f tbl) =
     (map_of tbl)(k \<mapsto> (case map_of tbl k of None \<Rightarrow> [] | Some fns \<Rightarrow> fns) @ [f])"
  by (auto simp: register_def update_conv' split: option.splits)

lemma register_keys:
  "set (map fst (register k f tbl)) = insert k (set (map fst tbl))"
proof (cases "map_of tbl k")
  case None
  then have "k \<notin> set (map fst tbl)" by (simp add: map_of_eq_None_iff)
  with None show ?thesis by (simp add: register_def update_keys)
next
  case (Some fns)
  then have "k \<in> set (map fst tbl)" by (metis domI dom_map_of_conv_image_fst list.set_map)
  with Some show ?thesis by (auto simp add: register_def update_keys)
qed

lemma register_distinct: "distinct (map fst tbl) \<Longrightarrow> distinct (map fst (register k f tbl))"
  by (auto simp: register_def distinct_update split: option.splits)

lemma dispatch_by_interval:
  assumes "distinct (map fst hooks)" and "0 \<notin> set (map fst hooks)"
  shows "\<exists>fs. run_hooks sem v hooks s = Inr (fs, apply_firings sem fs s)
          \<and> (\<forall>k fns. map_of hooks k = Some fns \<longrightarrow>
                fired_under k fs = (if v mod k = 0 then fns else [])
              \<and> (\<forall>fn \<in> set fns. (k, fn, style_of fn) \<in> set fs \<longleftrightarrow> v mod k = 0))"
proof -
  let ?fs = "firing_plan v hooks (map fst hooks)"
  have r: "run_hooks sem v hooks s = Inr (?fs, apply_firings sem ?fs s)"
    by (rule run_hooks_result[OF assms(2)])
  have f: "fired_under k ?fs = (if v mod k = 0 then fns else [])"
    if m: "map_of hooks k = Some fns" for k fns
  proof -
    from m have "k \<in> set (map fst hooks)"
      by (metis domI dom_map_of_conv_image_fst list.set_map)
    with fired_under_plan[OF assms(1), of k v hooks] m show ?thesis by simp
  qed
  have g: "(k, fn, style_of fn) \<in> set ?fs \<longleftrightarrow> v mod k = 0"
    if m: "map_of hooks k = Some fns" and fn: "fn \<in> set fns" for k fns fn
  proof -
    from m have "k \<in> set (map fst hooks)"
      by (metis domI dom_map_of_conv_image_fst list.set_map)
    with m fn show ?thesis by (simp add: in_firing_plan)
  qed
  show ?thesis
  proof (intro exI[of _ ?fs] conjI allI impI ballI)
    show "run_hooks sem v hooks s = Inr (?fs, apply_firings sem ?fs s)" by (rule r)
  next
    fix k fns assume "map_of hooks k = Some fns"
    then show "fired_under k ?fs = (if v mod k = 0 then fns else [])" by (rule f)
  next
    fix k fns fn assume "map_of hooks k = Some fns" "fn \<in> set fns"
    then show "((k, fn, style_of fn) \<in> set ?fs) = (v mod k = 0)" by (rule g)
  qed
qed

lemma dispatch_registration_order:
  assumes "distinct (map fst hooks)" and "0 \<notin> set (map fst hooks)" and "k \<noteq> 0"
  shows "\<exists>fs. run_hooks sem v (register k g (register k f hooks)) s = Inr (fs, apply_firings sem fs s)
          \<and> fired_under k fs =
               (if v mod k = 0
                then (case map_of hooks k of None \<Rightarrow> [] | Some old \<Rightarrow> old) @ [f, g] else [])"
proof -
  let ?h = "register k g (register k f hooks)"
  have d: "distinct (map fst ?h)" by (intro register_distinct assms(1))
  have z: "0 \<notin> set (map fst ?h)" using assms(2,3) by (simp add: register_keys del: set_map)
  have m: "map_of ?h k = Some ((case map_of hooks k of None \<Rightarrow> [] | Some old \<Rightarrow> old) @ [f, g])"
    by (simp add: register_map_of)
  from dispatch_by_interval[OF d z, of sem v s] m show ?thesis by blast
qed

text \<open>
  Claim C5. On a hook table (a dictionary: distinct keys) whose intervals are not zero,
  \<open>run_hooks\<close> on the value \<open>v\<close> returns, and for every interval \<open>k\<close> of the table the
  callbacks it called under \<open>k\<close> are all those registered under \<open>k\<close>, in the order of the
  list, when \<open>v mod k = 0\<close>, and none otherwise; so a callback registered under \<open>k\<close> is
  called under \<open>k\<close> exactly when \<open>v mod k = 0\<close>. The state returned is the one the calls
  listed leave. Two callbacks registered one after the other under the same non-zero
  interval are called last, in the order of their registration.
\<close>

theorem hooks_fire_iff_divisible:
  assumes "distinct (map fst hooks)" and "0 \<notin> set (map fst hooks)"
  shows "(\<exists>fs. run_hooks sem v hooks s = Inr (fs, apply_firings sem fs s)
            \<and> (\<forall>k fns. map_of hooks k = Some fns \<longrightarrow>
                  fired_under k fs = (if v mod k = 0 then fns else [])
                \<and> (\<forall>fn \<in> set fns. (k, fn, style_of fn) \<in> set fs \<longleftrightarrow> v mod k = 0)))
       \<and> (\<forall>k f g. k \<noteq> 0 \<longrightarrow>
            (\<exists>fs. run_hooks sem v (register k g (register k f hooks)) s
                     = Inr (fs, apply_firings sem fs s)
               \<and> fired_under k fs =
                   (if v mod k = 0
                    then (case map_of hooks k of None \<Rightarrow> [] | Some old \<Rightarrow> old) @ [f, g]
                    else [])))"
proof (intro conjI allI impI)
  show "\<exists>fs. run_hooks sem v hooks s = Inr (fs, apply_firings sem fs s)
            \<and> (\<forall>k fns. map_of hooks k = Some fns \<longrightarrow>
                  fired_under k fs = (if v mod k = 0 then fns else [])
                \<and> (\<forall>fn \<in> set fns. (k, fn, style_of fn) \<in> set fs \<longleftrightarrow> v mod k = 0))"
    by (rule dispatch_by_interval[OF assms])
next
  fix k :: int and f g assume "k \<noteq> 0"
  then show "\<exists>fs. run_hooks sem v (register k g (register k f hooks)) s
                     = Inr (fs, apply_firings sem fs s)
               \<and> fired_under k fs =
                   (if v mod k = 0
                    then (case map_of hooks k of None \<Rightarrow> [] | Some old \<Rightarrow> old) @ [f, g]
                    else [])"
    by (rule dispatch_registration_order[OF assms])
qed

theorem hooks_fire_iff_divisible_witness:
  "distinct (map fst demo_table) \<and> 0 \<notin> set (map fst demo_table)
   \<and> (\<exists>fs. run_hooks demo_sem 4 demo_table [] = Inr (fs, apply_firings demo_sem fs [])
          \<and> fired_under 2 fs = [Callback 0 False, Callback 1 True]
          \<and> fired_under 3 fs = [])
   \<and> (\<exists>fs. run_hooks demo_sem 4
              (register 2 (Callback 4 False) (register 2 (Callback 3 False) demo_table)) []
            = Inr (fs, apply_firings demo_sem fs [])
          \<and> fired_under 2 fs
              = [Callback 0 False, Callback 1 True, Callback 3 False, Callback 4 False])"
proof -
  have d: "distinct (map fst demo_table)" and z: "0 \<notin> set (map fst demo_table)"
    by (simp_all add: demo_table_def)
  have m: "map_of demo_table 2 = Some [Callback 0 False, Callback 1 True]"
    "map_of demo_table 3 = Some [Callback 2 False]"
    by (simp_all add: demo_table_def)
  note t = hooks_fire_iff_divisible[OF d z, of demo_sem 4 "[]"]
  from t have t1: "\<exists>fs. run_hooks demo_sem 4 demo_table [] = Inr (fs, apply_firings demo_sem fs [])
            \<and> (\<forall>k fns. map_of demo_table k = Some fns \<longrightarrow>
                  fired_under k fs = (if 4 mod k = 0 then fns else [])
                \<and> (\<forall>fn \<in> set fns. (k, fn, style_of fn) \<in> set fs \<longleftrightarrow> 4 mod k = 0))"
    by (rule conjunct1)
  then obtain fs where fs: "run_hooks demo_sem 4 demo_table [] = Inr (fs, apply_firings demo_sem fs [])"
    and all: "\<And>k fns. map_of demo_table k = Some fns \<Longrightarrow>
                  fired_under k fs = (if 4 mod k = 0 then fns else [])"
    by blast
  from all[OF m(1)] all[OF m(2)]
  have a: "fired_under 2 fs = [Callback 0 False, Callback 1 True]" "fired_under 3 fs = []"
    by simp_all
  from t have t2: "\<forall>k f g. k \<noteq> 0 \<longrightarrow>
            (\<exists>fs. run_hooks demo_sem 4 (register k g (register k f demo_table)) []
                     = Inr (fs, apply_firings demo_sem fs [])
               \<and> fired_under k fs =
                   (if 4 mod k = 0
                    then (case map_of demo_table k of None \<Rightarrow> [] | Some old \<Rightarrow> old) @ [f, g]
                    else []))"
    by (rule conjunct2)
  have "(2::int) \<noteq> 0" by simp
  with t2 have "\<exists>fs. run_hooks demo_sem 4
              (register 2 (Callback 4 False) (register 2 (Callback 3 False) demo_table)) []
            = Inr (fs, apply_firings demo_sem fs [])
          \<and> fired_under 2 fs =
              (if (4::int) mod 2 = 0
               then (case map_of demo_table 2 of None \<Rightarrow> [] | Some old \<Rightarrow> old)
                      @ [Callback 3 False, Callback 4 False]
               else [])"
    by (elim allE[of _ 2] allE[of _ "Callback 3 False"] allE[of _ "Callback 4 False"] impE)
  then have b: "\<exists>fs. run_hooks demo_sem 4
              (register 2 (Callback 4 False) (register 2 (Callback 3 False) demo_table)) []
            = Inr (fs, apply_firings demo_sem fs [])
          \<and> fired_under 2 fs
              = [Callback 0 False, Callback 1 True, Callback 3 False, Callback 4 False]"
    by (simp add: m)
  show ?thesis
  proof (intro conjI)
    show "\<exists>fs. run_hooks demo_sem 4 demo_table [] = Inr (fs, apply_firings demo_sem fs [])
          \<and> fired_under 2 fs = [Callback 0 False, Callback 1 True]
          \<and> fired_under 3 fs = []"
      using fs a by (intro exI[of _ fs] conjI)
  qed (rule d z b)+
qed

section \<open>Engine: the interrupt flag\<close>

lemma demo_engine_init:
  "Engine_init demo_params (Some demo_loader) [] [] [] () = Inr demo_engine"
  by (simp add: Engine_init_def demo_engine_def)

lemma engine_kwargs_sigint:
  "engine_kwargs kw e = Inr e' \<Longrightarrow> sigint e' = sigint e"
  by (induction kw arbitrary: e) (auto simp: log_msg_def split: sum.splits if_splits)

lemma Engine_init_sigint:
  "Engine_init ps loader kw names logs0 u = Inr e \<Longrightarrow> \<not> sigint e"
  by (auto simp: Engine_init_def Let_def log_msg_def split: sum.splits if_splits
      dest!: engine_kwargs_sigint)

text \<open>
  Claim C7. A constructed engine has the flag unset. On an unset flag the handler logs the
  notice and sets the flag; on a set flag it changes nothing and logs nothing; it never
  unsets the flag. So two signals sent to a constructed engine log the notice once.
\<close>

theorem interrupt_once:
  "(Engine_init ps loader kw names logs0 u = Inr e \<longrightarrow>
       \<not> sigint e
     \<and> sigint_handler e = e\<lparr>sigint := True, logged := logged e @ [sigint_notice]\<rparr>
     \<and> sigint_handler (sigint_handler e) = sigint_handler e
     \<and> logged (sigint_handler (sigint_handler e)) = logged e @ [sigint_notice])
   \<and> (\<not> sigint s \<longrightarrow> sigint_handler s = s\<lparr>sigint := True, logged := logged s @ [sigint_notice]\<rparr>)
   \<and> (sigint s \<longrightarrow> sigint_handler s = s)
   \<and> sigint (sigint_handler s)"
proof (intro conjI impI)
  assume i: "Engine_init ps loader kw names logs0 u = Inr e"
  from Engine_init_sigint[OF i] show "\<not> sigint e" .
  then show "sigint_handler e = e\<lparr>sigint := True, logged := logged e @ [sigint_notice]\<rparr>"
    and "sigint_handler (sigint_handler e) = sigint_handler e"
    and "logged (sigint_handler (sigint_handler e)) = logged e @ [sigint_notice]"
    by (simp_all add: sigint_handler_def)
qed (simp_all add: sigint_handler_def)

theorem interrupt_once_witness:
  "Engine_init demo_params (Some demo_loader) [] [] [] () = Inr demo_engine
   \<and> \<not> sigint demo_engine
   \<and> logged (sigint_handler (sigint_handler demo_engine)) = [sigint_notice]
   \<and> sigint (sigint_handler demo_engine)
   \<and> sigint_handler (sigint_handler demo_engine) = sigint_handler demo_engine"
proof -
  have l: "logged demo_engine = []" by (simp add: demo_engine_def)
  note t = interrupt_once[of demo_params "Some demo_loader" "[]" "[]" "[]" "()"
      demo_engine demo_engine]
  from t demo_engine_init have a: "\<not> sigint demo_engine"
    and b: "sigint_handler (sigint_handler demo_engine) = sigint_handler demo_engine"
    and c: "logged (sigint_handler (sigint_handler demo_engine))
              = logged demo_engine @ [sigint_notice]"
    by blast+
  from t have d: "sigint (sigint_handler demo_engine)" by blast
  from c l have c': "logged (sigint_handler (sigint_handler demo_engine)) = [sigint_notice]"
    by simp
  show ?thesis by (intro conjI demo_engine_init a c' d b)
qed

section \<open>Engine: attribute reads\<close>

text \<open>
  Claim C8. When the normal lookup does not find a name on the engine, reading it gives
  the value the parameter object has for the name, and raises \<^verbatim>\<open>AttributeError\<close> when the
  parameter object does not have the name either.
\<close>

theorem getattr_falls_back_to_params:
  assumes "engine_native e name = None"
  shows "(hp_getattr (params e) name = Inr v \<longrightarrow> engine_getattr e name = Inr (EAttr v))
       \<and> (hp_getattr (params e) name = Inl AttributeError
            \<longrightarrow> engine_getattr e name = Inl AttributeError)"
  using assms by (simp add: engine_getattr_def engine_getattr_hook_def hasattr_hp_def)

lemma demo_native_none:
  "engine_native demo_engine ''batch_size'' = None"
  "engine_native demo_engine ''missing'' = None"
  by (simp_all add: engine_native_def demo_engine_def engine_class_names_def object_names_def)

lemma demo_native_slots:
  "engine_native demo_engine ''__slots__'' = Some (EClassAttr ''__slots__'')"
  by (simp add: engine_native_def demo_engine_def engine_class_names_def)

lemma demo_hp_getattr:
  "hp_getattr demo_params ''batch_size'' = Inr (IntV 8)"
  "hp_getattr demo_params ''missing'' = Inl AttributeError"
  by (simp_all add: hp_getattr_def vars_hp_def demo_params_def hp_methods_def object_names_def)

theorem getattr_falls_back_to_params_witness:
  "engine_native demo_engine ''batch_size'' = None
   \<and> engine_getattr demo_engine ''batch_size'' = Inr (EAttr (IntV 8))
   \<and> engine_native demo_engine ''missing'' = None
   \<and> engine_getattr demo_engine ''missing'' = Inl AttributeError
   \<and> engine_native demo_engine ''__slots__'' = Some (EClassAttr ''__slots__'')"
  using getattr_falls_back_to_params[OF demo_native_none(1), of "IntV 8"]
        getattr_falls_back_to_params[OF demo_native_none(2), of NoneV]
        demo_native_none demo_hp_getattr demo_native_slots
  by (simp add: demo_engine_def)

section \<open>Engine: class-level registries\<close>

lemma store_AB_built:
  "Option.bind (define_subclass ''A'' ''Engine'' [] engine_class) (define_subclass ''B'' ''Engine'' [])
     = Some store_AB"
  by (simp add: define_subclass_def engine_class_def store_AB_def Let_def)

lemma store_AB_register:
  "register_hook EpochStart ''A'' 1 (Callback 0 False) store_AB = Inr store_AB_hooked"
  by (simp add: register_hook_def resolve_def attr_of_def store_AB_def store_AB_hooked_def register_def)

text \<open>
  Claim C2 as stated fails: with two subclasses \<^verbatim>\<open>A\<close> and \<^verbatim>\<open>B\<close> of \<^verbatim>\<open>Engine\<close>, a
  hook registered through \<^verbatim>\<open>A\<close> is in the table \<^verbatim>\<open>B\<close> sees, which was empty before.
\<close>

theorem other_subclass_sees_hook:
  "Option.bind (define_subclass ''A'' ''Engine'' [] engine_class) (define_subclass ''B'' ''Engine'' [])
     = Some store_AB
   \<and> register_hook EpochStart ''A'' 1 (Callback 0 False) store_AB = Inr store_AB_hooked
   \<and> hooks_seen store_AB ''B'' EpochStart = Some []
   \<and> hooks_seen store_AB_hooked ''B'' EpochStart = Some [(1, [Callback 0 False])]"
  using store_AB_built store_AB_register
  by (simp add: hooks_seen_def resolve_def attr_of_def store_AB_def store_AB_hooked_def)

text \<open>
  Claim C2, amended. A registration through a class adds the callback to the dictionary
  the class resolves for that table. Afterwards the class itself sees the registered table
  (and so does each of its instances, whenever created, since an instance reads the table
  through its class when it dispatches), every class and table name resolving to the same
  dictionary sees it too, and every other table of every class is unchanged.
\<close>

theorem register_hook_effect:
  assumes "register_hook kind cls k fn st = Inr st'"
  shows "\<exists>a tbl. resolve st cls (attr_of kind) = Some a \<and> map_of (heap st) a = Some tbl
           \<and> hooks_seen st' cls kind = Some (register k fn tbl)
           \<and> (\<forall>c kd. hooks_seen st' c kd =
                 (if resolve st c (attr_of kd) = Some a then Some (register k fn tbl)
                  else hooks_seen st c kd))"
proof -
  from assms obtain a tbl where a: "resolve st cls (attr_of kind) = Some a"
    and t: "map_of (heap st) a = Some tbl"
    and st': "st' = st\<lparr>heap := AList.update a (register k fn tbl) (heap st)\<rparr>"
    by (auto simp: register_hook_def split: option.splits)
  have r: "\<And>c x. resolve st' c x = resolve st c x"
    by (simp add: st' resolve_def split: option.splits)
  have h: "hooks_seen st' c kd =
                 (if resolve st c (attr_of kd) = Some a then Some (register k fn tbl)
                  else hooks_seen st c kd)" for c kd
    unfolding hooks_seen_def r
    by (cases "resolve st c (attr_of kd)") (simp_all add: st' update_conv')
  from a t h show ?thesis by auto
qed

theorem register_hook_effect_witness:
  "register_hook EpochStart ''A'' 1 (Callback 0 False) store_AB = Inr store_AB_hooked
   \<and> hooks_seen store_AB_hooked ''A'' EpochStart = Some [(1, [Callback 0 False])]
   \<and> hooks_seen store_AB_hooked ''Engine'' EpochStart = Some [(1, [Callback 0 False])]
   \<and> hooks_seen store_AB_hooked ''B'' EpochStart = Some [(1, [Callback 0 False])]
   \<and> hooks_seen store_AB_hooked ''B'' BatchEnd = hooks_seen store_AB ''B'' BatchEnd"
proof -
  have r: "resolve store_AB ''A'' (attr_of EpochStart) = Some 0"
    "resolve store_AB ''B'' (attr_of EpochStart) = Some 0"
    "resolve store_AB ''Engine'' (attr_of EpochStart) = Some 0"
    "resolve store_AB ''B'' (attr_of BatchEnd) = Some 3"
    by (simp_all add: resolve_def attr_of_def store_AB_def)
  have m: "map_of (heap store_AB) 0 = Some []" by (simp add: store_AB_def)
  from register_hook_effect[OF store_AB_register] r(1) m
  have all: "\<And>c kd. hooks_seen store_AB_hooked c kd =
                 (if resolve store_AB c (attr_of kd) = Some 0 then Some (register 1 (Callback 0 False) [])
                  else hooks_seen store_AB c kd)"
    by auto
  have reg: "register 1 (Callback 0 False) [] = [(1, [Callback 0 False])]"
    by (simp add: register_def)
  show ?thesis
    using store_AB_register all[of "''A''" EpochStart] all[of "''Engine''" EpochStart]
      all[of "''B''" EpochStart] all[of "''B''" BatchEnd] r reg
    by simp
qed

section \<open>Engine: readings of the state and of the events\<close>

lemma apply_firings_keeps:
  assumes "\<forall>fn st. keeps g (sem fn st)"
  shows "g (apply_firings sem fs s) = g s"
  using assms
  by (induction fs arbitrary: s) (simp_all add: apply_firings_def keeps_def)

lemma subdiv_of_counts:
  "counts s = (b, bs, m) \<Longrightarrow> m \<noteq> 0 \<Longrightarrow> batch_subdivisions (params s) = Inr (bs div m)"
  by (simp add: counts_def batch_subdivisions_def)

lemma flags_add_batch: "flags (add_batch k s) = flags s"
  by (simp add: flags_def add_batch_def)

lemma dispatched_append: "dispatched k (xs @ ys) = dispatched k xs @ dispatched k ys"
  by (simp add: dispatched_def)

lemma mod_int_nat: "(int idx + 1) mod int D = 0 \<longleftrightarrow> Suc idx mod D = 0"
proof -
  have "(int idx + 1) mod int D = int (Suc idx mod D)" by (simp add: zmod_int add.commute)
  then show ?thesis by simp
qed

lemma upt_head: "[i ..< i + Suc k] = i # [Suc i ..< Suc i + k]"
  using upt_conv_Cons[of i "i + Suc k"] by (simp del: upt_Suc)

section \<open>Engine: one mini-batch\<close>

lemma counts_batch: "counts s = (b, bs, m) \<Longrightarrow> batch (params s) = b"
  by (simp add: counts_def)

lemma run_hooks_plan:
  "0 \<notin> set (map fst tbl) \<Longrightarrow>
     run_hooks sem v tbl s = Inr (plan_of v tbl, apply_firings sem (plan_of v tbl) s)"
  by (simp add: run_hooks_result plan_of_def)

lemma frame_invoke: "frame g I \<Longrightarrow> g (apply_firings (invoke I) fs s) = g s"
  by (rule apply_firings_keeps) (simp add: frame_def)

lemma frame_process: "frame g I \<Longrightarrow> g (process_batch I x s) = g s"
  by (simp add: frame_def keeps_def)

lemma frame_train: "frame g I \<Longrightarrow> g (train_batch I s) = g s"
  by (simp add: frame_def keeps_def)

lemma frame_quit: "frame g I \<Longrightarrow> g (snd (quit I s)) = g s"
  by (simp add: frame_def keeps_def)

lemma counts_add_batch: "counts s = (b, bs, m) \<Longrightarrow> counts (add_batch k s) = (b + k, bs, m)"
  by (simp add: counts_def add_batch_def)

lemma counts_partial_minibatch:
  assumes fr: "frame counts I" and c: "counts s = (b, bs, m)"
  shows "counts (partial_minibatch I T x s) = (b, bs, m)"
proof -
  let ?s3 = "process_batch I x
          (apply_firings (invoke I) (plan_of (batch (params s) + 1) (t_batch_start T))
             (add_batch 1 s))"
  have "counts ?s3 = (b + 1, bs, m)"
    by (simp add: frame_process[OF fr] frame_invoke[OF fr] counts_add_batch[OF c])
  from counts_add_batch[OF this, of "- 1"] show ?thesis by (simp add: partial_minibatch_def)
qed

lemma flags_partial_minibatch: "frame flags I \<Longrightarrow> flags (partial_minibatch I T x s) = flags s"
  by (simp add: partial_minibatch_def flags_add_batch frame_process frame_invoke)

lemma counts_closing_minibatch:
  assumes fr: "frame counts I" and c: "counts s = (b, bs, m)"
  shows "counts (snd (closing_minibatch I T x s)) = (b + 1, bs, m)"
  by (simp add: closing_minibatch_def frame_quit[OF fr] frame_train[OF fr] frame_process[OF fr]
      frame_invoke[OF fr] counts_add_batch[OF c])

lemma flags_closing_minibatch:
  "frame flags I \<Longrightarrow> flags (snd (closing_minibatch I T x s)) = flags s"
  by (simp add: closing_minibatch_def flags_add_batch frame_quit frame_train frame_process
      frame_invoke)

lemma batch_iter_partial_exact:
  assumes fr: "frame counts I"
    and z1: "0 \<notin> set (map fst (t_batch_start T))"
    and c: "counts s = (b, bs, m)" and m: "m \<noteq> 0" and d: "bs div m \<noteq> 0"
    and nz: "(int idx + 1) mod (bs div m) \<noteq> 0"
  shows "batch_iter I T n idx x s
            = Inr ([Dispatch BatchStart (b + 1) (plan_of (b + 1) (t_batch_start T)),
                    ProcessBatch idx x], Continue (partial_minibatch I T x s))"
proof -
  let ?s1 = "add_batch 1 s"
  have bs: "batch (params s) = b" by (rule counts_batch[OF c])
  have c1: "counts ?s1 = (b + 1, bs, m)" by (rule counts_add_batch[OF c])
  have b1: "batch (params ?s1) = b + 1" by (rule counts_batch[OF c1])
  let ?s2 = "apply_firings (invoke I) (plan_of (b + 1) (t_batch_start T)) ?s1"
  have r: "run_hooks (invoke I) (b + 1) (t_batch_start T) ?s1
        = Inr (plan_of (b + 1) (t_batch_start T), ?s2)"
    by (rule run_hooks_plan[OF z1])
  let ?s3 = "process_batch I x ?s2"
  have c3: "counts ?s3 = (b + 1, bs, m)"
    by (simp add: frame_process[OF fr] frame_invoke[OF fr] c1)
  have sd: "batch_subdivisions (params ?s3) = Inr (bs div m)" by (rule subdiv_of_counts[OF c3 m])
  show ?thesis
    unfolding batch_iter_def Let_def b1 r using sd d nz by (simp add: partial_minibatch_def bs)
qed

lemma batch_iter_complete_exact:
  assumes fr: "frame counts I"
    and z1: "0 \<notin> set (map fst (t_batch_start T))"
    and z2: "0 \<notin> set (map fst (t_batch_end T))"
    and c: "counts s = (b, bs, m)" and m: "m \<noteq> 0" and d: "bs div m \<noteq> 0"
    and nz: "(int idx + 1) mod (bs div m) = 0"
  shows "batch_iter I T n idx x s
            = Inr ([Dispatch BatchStart (b + 1) (plan_of (b + 1) (t_batch_start T)),
                    ProcessBatch idx x, TrainBatch,
                    Dispatch BatchEnd (b + 1) (plan_of (b + 1) (t_batch_end T))],
                   if fst (closing_minibatch I T x s) \<or> sigint (snd (closing_minibatch I T x s))
                   then Return (log_msg Info ''Reached quitting criteria''
                                  (snd (closing_minibatch I T x s)))
                   else if int n - int idx \<le> bs div m
                        then Break (snd (closing_minibatch I T x s))
                        else Continue (snd (closing_minibatch I T x s)))"
proof -
  let ?s1 = "add_batch 1 s"
  have bs: "batch (params s) = b" by (rule counts_batch[OF c])
  have c1: "counts ?s1 = (b + 1, bs, m)" by (rule counts_add_batch[OF c])
  have b1: "batch (params ?s1) = b + 1" by (rule counts_batch[OF c1])
  let ?s2 = "apply_firings (invoke I) (plan_of (b + 1) (t_batch_start T)) ?s1"
  have r: "run_hooks (invoke I) (b + 1) (t_batch_start T) ?s1
        = Inr (plan_of (b + 1) (t_batch_start T), ?s2)"
    by (rule run_hooks_plan[OF z1])
  let ?s3 = "process_batch I x ?s2"
  have c3: "counts ?s3 = (b + 1, bs, m)"
    by (simp add: frame_process[OF fr] frame_invoke[OF fr] c1)
  have sd: "batch_subdivisions (params ?s3) = Inr (bs div m)" by (rule subdiv_of_counts[OF c3 m])
  let ?s4 = "train_batch I ?s3"
  have c4: "counts ?s4 = (b + 1, bs, m)" by (simp add: frame_train[OF fr] c3)
  have b4: "batch (params ?s4) = b + 1" by (rule counts_batch[OF c4])
  let ?s5 = "apply_firings (invoke I) (plan_of (b + 1) (t_batch_end T)) ?s4"
  have r2: "run_hooks (invoke I) (b + 1) (t_batch_end T) ?s4
        = Inr (plan_of (b + 1) (t_batch_end T), ?s5)"
    by (rule run_hooks_plan[OF z2])
  have q: "quit I ?s5 = closing_minibatch I T x s"
    by (simp add: closing_minibatch_def bs)
  have c6: "counts (snd (closing_minibatch I T x s)) = (b + 1, bs, m)"
    by (rule counts_closing_minibatch[OF fr c])
  have sd6: "batch_subdivisions (params (snd (closing_minibatch I T x s))) = Inr (bs div m)"
    by (rule subdiv_of_counts[OF c6 m])
  show ?thesis
    unfolding batch_iter_def Let_def b1 r using sd d nz by (simp add: b4 r2 q sd6)
qed

section \<open>Engine: one group of mini-batches\<close>

lemma partial_events_Nil: "partial_events T v idx [] = []"
  by (simp add: partial_events_def)

lemma partial_events_Cons:
  "partial_events T v idx (x # xs)
     = [Dispatch BatchStart v (plan_of v (t_batch_start T)), ProcessBatch idx x]
       @ partial_events T v (Suc idx) xs"
proof -
  have "[idx ..< idx + Suc (length xs)] = idx # [Suc idx ..< Suc idx + length xs]"
    by (rule upt_head)
  then show ?thesis by (simp add: partial_events_def del: upt_Suc)
qed

lemma partial_events_snoc:
  "partial_events T v idx (xs @ [x])
     = partial_events T v idx xs
       @ [Dispatch BatchStart v (plan_of v (t_batch_start T)), ProcessBatch (idx + length xs) x]"
  by (induction xs arbitrary: idx) (simp_all add: partial_events_Nil partial_events_Cons)

lemma batch_loop_partials:
  assumes fr: "frame counts I"
    and z1: "0 \<notin> set (map fst (t_batch_start T))"
    and m: "m \<noteq> 0" and d: "bs div m = int D" and D: "0 < D"
  shows "counts s = (b, bs, m) \<Longrightarrow> \<forall>j < length xs. Suc (idx + j) mod D \<noteq> 0 \<Longrightarrow>
     batch_loop I T n idx (xs @ rest) s
       = (case batch_loop I T n (idx + length xs) rest (fold (partial_minibatch I T) xs s) of
            Inl e \<Rightarrow> Inl e
          | Inr r \<Rightarrow> Inr (partial_events T (b + 1) idx xs @ fst r, snd r))"
proof (induction xs arbitrary: idx s)
  case Nil
  show ?case
    by (cases "batch_loop I T n idx rest s") (simp_all add: partial_events_Nil)
next
  case (Cons x xs)
  have d0: "bs div m \<noteq> 0" using d D by simp
  from Cons.prems(2) have "Suc (idx + 0) mod D \<noteq> 0" by blast
  then have nz: "(int idx + 1) mod (bs div m) \<noteq> 0" by (simp add: d mod_int_nat)
  have it: "batch_iter I T n idx x s
            = Inr ([Dispatch BatchStart (b + 1) (plan_of (b + 1) (t_batch_start T)),
                    ProcessBatch idx x], Continue (partial_minibatch I T x s))"
    by (rule batch_iter_partial_exact[OF fr z1 Cons.prems(1) m d0 nz])
  have c1: "counts (partial_minibatch I T x s) = (b, bs, m)"
    by (rule counts_partial_minibatch[OF fr Cons.prems(1)])
  have pos: "\<forall>j < length xs. Suc (Suc idx + j) mod D \<noteq> 0"
  proof (intro allI impI)
    fix j assume "j < length xs"
    then have "Suc j < length (x # xs)" by simp
    with Cons.prems(2) have "Suc (idx + Suc j) mod D \<noteq> 0" by blast
    then show "Suc (Suc idx + j) mod D \<noteq> 0" by simp
  qed
  note ih = Cons.IH[OF c1 pos]
  show ?case
    by (simp add: it ih partial_events_Cons split: sum.splits)
qed

lemma group_positions:
  assumes "idx mod D = 0" and "Suc k = D"
  shows "\<forall>j < k. Suc (idx + j) mod D \<noteq> 0" and "Suc (idx + k) mod D = 0"
proof -
  show "\<forall>j < k. Suc (idx + j) mod D \<noteq> 0"
  proof (intro allI impI)
    fix j assume j: "j < k"
    have "(idx + Suc j) mod D = (idx mod D + Suc j) mod D" by (rule mod_add_left_eq[symmetric])
    also have "\<dots> = Suc j" using assms j by simp
    finally show "Suc (idx + j) mod D \<noteq> 0" by simp
  qed
  have "(idx + D) mod D = (idx mod D + D) mod D" by (rule mod_add_left_eq[symmetric])
  also have "\<dots> = 0" using assms(1) by simp
  finally have e: "(idx + D) mod D = 0" .
  have s: "Suc (idx + k) = idx + D" using assms(2) by simp
  show "Suc (idx + k) mod D = 0" unfolding s by (rule e)
qed

lemma batch_loop_group:
  assumes fr: "frame counts I"
    and z1: "0 \<notin> set (map fst (t_batch_start T))"
    and z2: "0 \<notin> set (map fst (t_batch_end T))"
    and c: "counts s = (b, bs, m)"
    and m: "m \<noteq> 0" and d: "bs div m = int D"
    and al: "idx mod D = 0" and ln: "Suc (length xs) = D"
  shows "batch_loop I T n idx (xs @ x # rest) s =
           (if fst (closing_minibatch I T x (fold (partial_minibatch I T) xs s))
               \<or> sigint (snd (closing_minibatch I T x (fold (partial_minibatch I T) xs s)))
            then Inr (group_events T (b + 1) idx (xs @ [x]), True,
                      log_msg Info ''Reached quitting criteria''
                        (snd (closing_minibatch I T x (fold (partial_minibatch I T) xs s))))
            else if int n - int (idx + length xs) \<le> int D
            then Inr (group_events T (b + 1) idx (xs @ [x]), False,
                      snd (closing_minibatch I T x (fold (partial_minibatch I T) xs s)))
            else (case batch_loop I T n (idx + D) rest
                         (snd (closing_minibatch I T x (fold (partial_minibatch I T) xs s))) of
                    Inl e \<Rightarrow> Inl e
                  | Inr r \<Rightarrow> Inr (group_events T (b + 1) idx (xs @ [x]) @ fst r, snd r)))"
proof -
  from ln have D: "0 < D" by auto
  have d0: "bs div m \<noteq> 0" using d D by simp
  define t where "t = fold (partial_minibatch I T) xs s"
  define q where "q = closing_minibatch I T x t"
  note pos = group_positions[OF al ln]
  have ct: "counts t = (b, bs, m)"
    unfolding t_def using c
  proof (induction xs arbitrary: s)
    case Nil
    then show ?case by simp
  next
    case (Cons y ys)
    from Cons.IH[OF counts_partial_minibatch[OF fr Cons.prems]] show ?case by simp
  qed
  have pre: "batch_loop I T n idx (xs @ x # rest) s
       = (case batch_loop I T n (idx + length xs) (x # rest) t of
            Inl e \<Rightarrow> Inl e
          | Inr r \<Rightarrow> Inr (partial_events T (b + 1) idx xs @ fst r, snd r))"
    unfolding t_def by (rule batch_loop_partials[OF fr z1 m d D c pos(1)])
  have nz: "(int (idx + length xs) + 1) mod (bs div m) = 0"
    using pos(2) mod_int_nat[of "idx + length xs" D] by (simp add: d)
  have it: "batch_iter I T n (idx + length xs) x t
            = Inr ([Dispatch BatchStart (b + 1) (plan_of (b + 1) (t_batch_start T)),
                    ProcessBatch (idx + length xs) x, TrainBatch,
                    Dispatch BatchEnd (b + 1) (plan_of (b + 1) (t_batch_end T))],
                   if fst q \<or> sigint (snd q)
                   then Return (log_msg Info ''Reached quitting criteria'' (snd q))
                   else if int n - int (idx + length xs) \<le> bs div m
                        then Break (snd q)
                        else Continue (snd q))"
    unfolding q_def by (rule batch_iter_complete_exact[OF fr z1 z2 ct m d0 nz])
  have ge: "group_events T (b + 1) idx (xs @ [x])
      = partial_events T (b + 1) idx xs
        @ [Dispatch BatchStart (b + 1) (plan_of (b + 1) (t_batch_start T)),
           ProcessBatch (idx + length xs) x, TrainBatch,
           Dispatch BatchEnd (b + 1) (plan_of (b + 1) (t_batch_end T))]"
    by (simp add: group_events_def partial_events_snoc)
  have nx: "Suc (idx + length xs) = idx + D" using ln by simp
  show ?thesis
    unfolding pre t_def[symmetric] q_def[symmetric] batch_loop.simps it ge
    by (simp add: d nx split: sum.splits)
qed

lemma counts_fold_partial:
  assumes fr: "frame counts I"
  shows "counts s = (b, bs, m) \<Longrightarrow> counts (fold (partial_minibatch I T) xs s) = (b, bs, m)"
proof (induction xs arbitrary: s)
  case Nil
  then show ?case by simp
next
  case (Cons y ys)
  from Cons.IH[OF counts_partial_minibatch[OF fr Cons.prems]] show ?case by simp
qed

lemma flags_fold_partial:
  assumes ff: "frame flags I"
  shows "flags (fold (partial_minibatch I T) xs s) = flags s"
  by (induction xs arbitrary: s) (simp_all add: flags_partial_minibatch[OF ff])

lemma dispatched_partial_events:
  "dispatched BatchStart (partial_events T v idx xs)
     = replicate (length xs) (v, plan_of v (t_batch_start T))"
proof (induction xs arbitrary: idx)
  case Nil
  show ?case by (simp add: partial_events_Nil dispatched_def)
next
  case (Cons x xs)
  have "dispatched BatchStart (partial_events T v idx (x # xs))
      = (v, plan_of v (t_batch_start T)) # dispatched BatchStart (partial_events T v (Suc idx) xs)"
    unfolding partial_events_Cons dispatched_append by (simp add: dispatched_def)
  then show ?case by (simp add: Cons.IH)
qed

lemma dispatched_group_events:
  "dispatched BatchStart (group_events T v idx xs)
     = replicate (length xs) (v, plan_of v (t_batch_start T))"
  unfolding group_events_def dispatched_append dispatched_partial_events
  by (simp add: dispatched_def)

lemma fired_under_plan_of:
  assumes "distinct (map fst tbl)" and "map_of tbl k = Some fns"
  shows "fired_under k (plan_of v tbl) = (if v mod k = 0 then fns else [])"
proof -
  from assms(2) have "k \<in> set (map fst tbl)"
    by (metis domI dom_map_of_conv_image_fst list.set_map)
  with fired_under_plan[OF assms(1), of k v tbl] assms(2) show ?thesis
    by (simp add: plan_of_def)
qed

section \<open>Engine: the groups of an epoch\<close>

text \<open>
  Claim C10. Take callbacks and extension points that leave the batch counter and the two
  batch sizes alone, batch hook tables with distinct non-zero intervals, \<open>D\<close> subdivisions,
  and a group of \<open>D\<close> mini-batches \<open>xs @ [x]\<close> that the loop reaches at a position \<open>idx\<close>
  divisible by \<open>D\<close>, in a state where the counter is \<open>b\<close>. Then the loop does exactly
  this: for each mini-batch of \<open>xs\<close> the counter goes up to \<open>b + 1\<close>, the batch-start
  callbacks planned for \<open>b + 1\<close> are called, the mini-batch is processed and the counter
  goes back to \<open>b\<close>; for \<open>x\<close> the same happens without the way back, followed by
  \<^verbatim>\<open>train_batch\<close> and the batch-end dispatch on \<open>b + 1\<close>; then the loop returns, breaks or
  goes on with the next group. So the group has \<open>D\<close> batch-start dispatches, all on the
  value \<open>b + 1\<close>, each calling under an interval \<open>k\<close> of the table the callbacks registered
  there when \<open>k\<close> divides \<open>b + 1\<close> and none otherwise: these callbacks are called \<open>D\<close>
  times for the one value. The counter is \<open>b\<close> again after every mini-batch of \<open>xs\<close> and
  \<open>b + 1\<close> after \<open>x\<close>.
\<close>

theorem batch_start_repeats_counter:
  assumes "frame counts I"
    and "0 \<notin> set (map fst (t_batch_start T))" and "0 \<notin> set (map fst (t_batch_end T))"
    and "distinct (map fst (t_batch_start T))"
    and "mini_batch_size (params s) \<noteq> 0"
    and "batch_size (params s) div mini_batch_size (params s) = int D"
    and "idx mod D = 0" and "Suc (length xs) = D"
  shows "batch_loop I T n idx (xs @ x # rest) s =
           (if fst (closing_minibatch I T x (fold (partial_minibatch I T) xs s))
               \<or> sigint (snd (closing_minibatch I T x (fold (partial_minibatch I T) xs s)))
            then Inr (group_events T (batch (params s) + 1) idx (xs @ [x]), True,
                      log_msg Info ''Reached quitting criteria''
                        (snd (closing_minibatch I T x (fold (partial_minibatch I T) xs s))))
            else if int n - int (idx + length xs) \<le> int D
            then Inr (group_events T (batch (params s) + 1) idx (xs @ [x]), False,
                      snd (closing_minibatch I T x (fold (partial_minibatch I T) xs s)))
            else (case batch_loop I T n (idx + D) rest
                         (snd (closing_minibatch I T x (fold (partial_minibatch I T) xs s))) of
                    Inl e \<Rightarrow> Inl e
                  | Inr r \<Rightarrow>
                      Inr (group_events T (batch (params s) + 1) idx (xs @ [x]) @ fst r, snd r)))
       \<and> dispatched BatchStart (group_events T (batch (params s) + 1) idx (xs @ [x]))
           = replicate D (batch (params s) + 1,
                          plan_of (batch (params s) + 1) (t_batch_start T))
       \<and> (\<forall>k fns. map_of (t_batch_start T) k = Some fns \<longrightarrow>
             fired_under k (plan_of (batch (params s) + 1) (t_batch_start T))
               = (if (batch (params s) + 1) mod k = 0 then fns else []))
       \<and> (\<forall>ys. batch (params (fold (partial_minibatch I T) ys s)) = batch (params s))
       \<and> batch (params (snd (closing_minibatch I T x (fold (partial_minibatch I T) xs s))))
           = batch (params s) + 1"
proof (intro conjI allI impI)
  let ?b = "batch (params s)"
  have c: "counts s = (?b, batch_size (params s), mini_batch_size (params s))"
    by (simp add: counts_def)
  show "batch_loop I T n idx (xs @ x # rest) s =
           (if fst (closing_minibatch I T x (fold (partial_minibatch I T) xs s))
               \<or> sigint (snd (closing_minibatch I T x (fold (partial_minibatch I T) xs s)))
            then Inr (group_events T (batch (params s) + 1) idx (xs @ [x]), True,
                      log_msg Info ''Reached quitting criteria''
                        (snd (closing_minibatch I T x (fold (partial_minibatch I T) xs s))))
            else if int n - int (idx + length xs) \<le> int D
            then Inr (group_events T (batch (params s) + 1) idx (xs @ [x]), False,
                      snd (closing_minibatch I T x (fold (partial_minibatch I T) xs s)))
            else (case batch_loop I T n (idx + D) rest
                         (snd (closing_minibatch I T x (fold (partial_minibatch I T) xs s))) of
                    Inl e \<Rightarrow> Inl e
                  | Inr r \<Rightarrow>
                      Inr (group_events T (batch (params s) + 1) idx (xs @ [x]) @ fst r, snd r)))"
    by (rule batch_loop_group[OF assms(1,2,3) c assms(5,6,7,8)])
  show "dispatched BatchStart (group_events T (batch (params s) + 1) idx (xs @ [x]))
           = replicate D (batch (params s) + 1,
                          plan_of (batch (params s) + 1) (t_batch_start T))"
    unfolding dispatched_group_events using assms(8) by simp
  show "fired_under k (plan_of (batch (params s) + 1) (t_batch_start T))
               = (if (batch (params s) + 1) mod k = 0 then fns else [])"
    if "map_of (t_batch_start T) k = Some fns" for k fns
    by (rule fired_under_plan_of[OF assms(4) that])
  show "batch (params (fold (partial_minibatch I T) ys s)) = batch (params s)" for ys
    by (rule counts_batch[OF counts_fold_partial[OF assms(1) c]])
  show "batch (params (snd (closing_minibatch I T x (fold (partial_minibatch I T) xs s))))
           = batch (params s) + 1"
    by (rule counts_batch[OF counts_closing_minibatch[OF assms(1)
          counts_fold_partial[OF assms(1) c]]])
qed

lemma frame_tally: "frame counts tally_impl" "frame flags tally_impl"
  by (simp_all add: frame_def keeps_def tally_impl_def counts_def flags_def)

lemma tally_tables:
  "0 \<notin> set (map fst (t_batch_start one_hook))" "0 \<notin> set (map fst (t_batch_end one_hook))"
  "0 \<notin> set (map fst (t_epoch_start one_hook))" "0 \<notin> set (map fst (t_epoch_end one_hook))"
  "distinct (map fst (t_batch_start one_hook))"
  by (simp_all add: one_hook_def)

lemma tally_engine_fields:
  "batch_size (params (tally_engine xs)) = 8" "mini_batch_size (params (tally_engine xs)) = 4"
  "dataloader (tally_engine xs) = Some xs"
  "\<not> sigint (tally_engine xs)" "batch (params (tally_engine xs)) = 0"
  "epoch (params (tally_engine xs)) = 0"
  by (simp_all add: tally_engine_def demo_params_def)

lemma tally_never_quits: "\<forall>t. \<not> fst (quit tally_impl t)"
  by (simp add: tally_impl_def)

lemma one_hook_plan:
  "v \<noteq> 0 \<Longrightarrow> plan_of v (t_batch_start one_hook) = [(1, Callback 0 False, WithEngine)]"
  "plan_of v (t_batch_end one_hook) = []"
  by (simp_all add: plan_of_def firing_plan_def one_hook_def style_of_def)

lemma tally_first_minibatch:
  "fold (partial_minibatch tally_impl one_hook) [0] (tally_engine demo_loader)
     = (tally_engine demo_loader)\<lparr>user := (1, 0, 1)\<rparr>"
  by (simp add: partial_minibatch_def apply_firings_def tally_impl_def add_batch_def
      tally_engine_def demo_params_def plan_of_def firing_plan_def one_hook_def style_of_def)

lemma tally_second_minibatch:
  "closing_minibatch tally_impl one_hook 1 ((tally_engine demo_loader)\<lparr>user := (1, 0, 1)\<rparr>)
     = (False, (tally_engine demo_loader)\<lparr>params := demo_params\<lparr>batch := 1\<rparr>, user := (2, 1, 2)\<rparr>)"
  by (simp add: closing_minibatch_def apply_firings_def tally_impl_def add_batch_def
      tally_engine_def demo_params_def plan_of_def firing_plan_def one_hook_def style_of_def)

theorem batch_start_repeats_counter_witness:
  "frame counts tally_impl
   \<and> 0 \<notin> set (map fst (t_batch_start one_hook)) \<and> 0 \<notin> set (map fst (t_batch_end one_hook))
   \<and> distinct (map fst (t_batch_start one_hook))
   \<and> mini_batch_size (params (tally_engine demo_loader)) \<noteq> 0
   \<and> batch_size (params (tally_engine demo_loader))
        div mini_batch_size (params (tally_engine demo_loader)) = int 2
   \<and> (0::nat) mod 2 = 0 \<and> Suc (length [0::nat]) = 2
   \<and> batch_loop tally_impl one_hook 10 0 demo_loader (tally_engine demo_loader)
       = (case batch_loop tally_impl one_hook 10 2 [2, 3, 4, 5, 6, 7, 8, 9]
                 ((tally_engine demo_loader)\<lparr>params := demo_params\<lparr>batch := 1\<rparr>,
                                            user := (2, 1, 2)\<rparr>) of
            Inl e \<Rightarrow> Inl e
          | Inr r \<Rightarrow> Inr (group_events one_hook 1 0 [0, 1] @ fst r, snd r))
   \<and> dispatched BatchStart (group_events one_hook 1 0 [0, 1])
       = [(1, [(1, Callback 0 False, WithEngine)]), (1, [(1, Callback 0 False, WithEngine)])]
   \<and> fired_under 1 (plan_of 1 (t_batch_start one_hook)) = [Callback 0 False]"
proof -
  have m: "mini_batch_size (params (tally_engine demo_loader)) \<noteq> 0"
    and d: "batch_size (params (tally_engine demo_loader))
        div mini_batch_size (params (tally_engine demo_loader)) = int 2"
    by (simp_all add: tally_engine_fields)
  have al: "(0::nat) mod 2 = 0" and ln: "Suc (length [0::nat]) = 2" by simp_all
  define rest :: "nat list" where "rest = [2, 3, 4, 5, 6, 7, 8, 9]"
  have dl: "[0] @ 1 # rest = demo_loader" by (simp add: demo_loader_def rest_def)
  have mp: "map_of (t_batch_start one_hook) 1 = Some [Callback 0 False]"
    by (simp add: one_hook_def)
  note th = batch_start_repeats_counter[OF frame_tally(1) tally_tables(1,2,5) m d al ln,
      of 10 1 rest]
  from th have run: "batch_loop tally_impl one_hook 10 0 demo_loader (tally_engine demo_loader)
       = (case batch_loop tally_impl one_hook 10 2 rest
                 ((tally_engine demo_loader)\<lparr>params := demo_params\<lparr>batch := 1\<rparr>,
                                            user := (2, 1, 2)\<rparr>) of
            Inl e \<Rightarrow> Inl e
          | Inr r \<Rightarrow> Inr (group_events one_hook 1 0 [0, 1] @ fst r, snd r))"
    unfolding dl tally_first_minibatch tally_second_minibatch
    by (simp add: tally_engine_fields numeral_2_eq_2[symmetric] cong: sum.case_cong)
  from th have dis: "dispatched BatchStart (group_events one_hook 1 0 [0, 1])
       = [(1, [(1, Callback 0 False, WithEngine)]), (1, [(1, Callback 0 False, WithEngine)])]"
    by (simp add: tally_engine_fields one_hook_plan numeral_2_eq_2)
  from th mp have fu: "fired_under 1 (plan_of 1 (t_batch_start one_hook)) = [Callback 0 False]"
    by (simp add: tally_engine_fields)
  show ?thesis
    by (intro conjI frame_tally(1) tally_tables(1,2,5) m d al ln run[unfolded rest_def] dis fu)
qed

lemma closing_never_quits:
  "\<forall>t. \<not> fst (quit I t) \<Longrightarrow> \<not> fst (closing_minibatch I T x s)"
  by (simp add: closing_minibatch_def)

lemma batch_loop_groups:
  assumes fr: "frame counts I" and ff: "frame flags I" and nq: "\<forall>t. \<not> fst (quit I t)"
    and z1: "0 \<notin> set (map fst (t_batch_start T))"
    and z2: "0 \<notin> set (map fst (t_batch_end T))"
    and m: "m \<noteq> 0" and d: "bs div m = int D" and l: "l < D"
  shows "counts s = (b, bs, m) \<Longrightarrow> \<not> sigint s \<Longrightarrow> idx mod D = 0
     \<Longrightarrow> length ys = Suc k * D + l \<Longrightarrow> n = idx + length ys \<Longrightarrow>
     \<exists>s'. batch_loop I T n idx ys s = Inr (groups_events T D (b + 1) idx (Suc k) ys, False, s')
        \<and> counts s' = (b + 1 + int k, bs, m) \<and> flags s' = flags s"
proof (induction k arbitrary: s b idx ys)
  case 0
  from l have D: "0 < D" by simp
  define xs where "xs = take (D - 1) ys"
  define x where "x = ys ! (D - 1)"
  define rest where "rest = drop D ys"
  from 0(4) D have lt: "D - 1 < length ys" by simp
  have sd: "Suc (D - Suc 0) = D" using D by simp
  have ys: "ys = xs @ x # rest"
    using id_take_nth_drop[OF lt] by (simp add: xs_def x_def rest_def sd)
  have lx: "Suc (length xs) = D" using lt D by (simp add: xs_def)
  have tk: "take D ys = xs @ [x]"
    using take_Suc_conv_app_nth[OF lt] by (simp add: xs_def x_def sd)
  define q where "q = closing_minibatch I T x (fold (partial_minibatch I T) xs s)"
  have nf: "\<not> fst q" unfolding q_def by (rule closing_never_quits[OF nq])
  have fq: "flags (snd q) = flags s"
    unfolding q_def by (simp add: flags_closing_minibatch[OF ff] flags_fold_partial[OF ff])
  with 0(2) have ns: "\<not> sigint (snd q)" by (simp add: flags_def)
  have cq: "counts (snd q) = (b + 1, bs, m)"
    unfolding q_def
    by (rule counts_closing_minibatch[OF fr counts_fold_partial[OF fr 0(1)]])
  have br: "int n - int (idx + length xs) \<le> int D"
    using 0(4,5) lx l by simp
  have "batch_loop I T n idx (xs @ x # rest) s
      = Inr (group_events T (b + 1) idx (xs @ [x]), False, snd q)"
    unfolding batch_loop_group[OF fr z1 z2 0(1) m d 0(3) lx] q_def[symmetric]
    using nf ns br by simp
  then have "batch_loop I T n idx ys s = Inr (groups_events T D (b + 1) idx (Suc 0) ys, False, snd q)"
    by (simp add: ys[symmetric] tk)
  with cq fq show ?case by (intro exI[of _ "snd q"]) simp
next
  case (Suc k)
  from l have D: "0 < D" by simp
  define xs where "xs = take (D - 1) ys"
  define x where "x = ys ! (D - 1)"
  define rest where "rest = drop D ys"
  from Suc.prems(4) D have lt: "D - 1 < length ys" by simp
  have sd: "Suc (D - Suc 0) = D" using D by simp
  have ys: "ys = xs @ x # rest"
    using id_take_nth_drop[OF lt] by (simp add: xs_def x_def rest_def sd)
  have lx: "Suc (length xs) = D" using lt D by (simp add: xs_def)
  have tk: "take D ys = xs @ [x]"
    using take_Suc_conv_app_nth[OF lt] by (simp add: xs_def x_def sd)
  have lr: "length rest = Suc k * D + l" using Suc.prems(4) by (simp add: rest_def)
  define q where "q = closing_minibatch I T x (fold (partial_minibatch I T) xs s)"
  have nf: "\<not> fst q" unfolding q_def by (rule closing_never_quits[OF nq])
  have fq: "flags (snd q) = flags s"
    unfolding q_def by (simp add: flags_closing_minibatch[OF ff] flags_fold_partial[OF ff])
  with Suc.prems(2) have ns: "\<not> sigint (snd q)" by (simp add: flags_def)
  have cq: "counts (snd q) = (b + 1, bs, m)"
    unfolding q_def
    by (rule counts_closing_minibatch[OF fr counts_fold_partial[OF fr Suc.prems(1)]])
  have "int n - int (idx + length xs) = int (Suc (Suc k) * D + l) - int (length xs)"
    using Suc.prems(4,5) by simp
  also have "\<dots> = int (Suc k * D + l) + int D - int (length xs)" by simp
  also have "\<dots> = int (Suc k * D + l) + 1" using lx by simp
  also have "\<dots> > int D" by simp
  finally have br: "\<not> int n - int (idx + length xs) \<le> int D" by simp
  have al: "(idx + D) mod D = 0" using Suc.prems(3) by simp
  have n': "n = idx + D + length rest" using Suc.prems(4,5) lr by simp
  from Suc.IH[OF cq ns al lr n']
  obtain s' where bl: "batch_loop I T n (idx + D) rest (snd q)
        = Inr (groups_events T D (b + 1 + 1) (idx + D) (Suc k) rest, False, s')"
    and cs: "counts s' = (b + 1 + 1 + int k, bs, m)" and fs: "flags s' = flags (snd q)"
    by blast
  have "batch_loop I T n idx (xs @ x # rest) s
      = Inr (group_events T (b + 1) idx (xs @ [x])
             @ groups_events T D (b + 1 + 1) (idx + D) (Suc k) rest, False, s')"
    unfolding batch_loop_group[OF fr z1 z2 Suc.prems(1) m d Suc.prems(3) lx] q_def[symmetric]
    using nf ns br by (simp add: bl)
  moreover have "batch_loop I T n idx ys s = batch_loop I T n idx (xs @ x # rest) s"
    using ys by simp
  moreover have "groups_events T D (b + 1) idx (Suc (Suc k)) ys
      = group_events T (b + 1) idx (xs @ [x])
        @ groups_events T D (b + 1 + 1) (idx + D) (Suc k) rest"
    by (subst groups_events.simps(2)) (simp only: tk rest_def)
  ultimately have res: "batch_loop I T n idx ys s
      = Inr (groups_events T D (b + 1) idx (Suc (Suc k)) ys, False, s')"
    by (simp only:)
  have cs': "counts s' = (b + 1 + int (Suc k), bs, m)" using cs by simp
  have fs': "flags s' = flags s" using fs fq by simp
  show ?case by (intro exI[of _ s'] conjI res cs' fs')
qed

section \<open>Engine: one epoch\<close>

lemma flags_add_epoch: "flags (add_epoch k s) = flags s"
  by (simp add: flags_def add_epoch_def)

lemma counts_add_epoch: "counts (add_epoch k s) = counts s"
  by (simp add: counts_def add_epoch_def)

lemma run_epoch_groups:
  assumes fr: "frame counts I" and ff: "frame flags I" and nq: "\<forall>t. \<not> fst (quit I t)"
    and z1: "0 \<notin> set (map fst (t_batch_start T))"
    and z2: "0 \<notin> set (map fst (t_batch_end T))"
    and z3: "0 \<notin> set (map fst (t_epoch_start T))"
    and z4: "0 \<notin> set (map fst (t_epoch_end T))"
    and m: "mini_batch_size (params s) \<noteq> 0"
    and d: "batch_size (params s) div mini_batch_size (params s) = int D"
    and ld: "dataloader s = Some loader" and ns: "\<not> sigint s"
    and ln: "length loader = Suc k * D + l" and l: "l < D"
  shows "\<exists>s' v. run_epoch I T s
           = Inr (Dispatch EpochStart (epoch (params s) + 1)
                    (plan_of (epoch (params s) + 1) (t_epoch_start T))
                  # groups_events T D (batch (params s) + 1) 0 (Suc k) loader
                  @ [Dispatch EpochEnd v (plan_of v (t_epoch_end T))], False, s')
        \<and> batch (params s') = batch (params s) + 1 + int k"
proof -
  let ?b = "batch (params s)" and ?bs = "batch_size (params s)" and ?m = "mini_batch_size (params s)"
  let ?e = "epoch (params s) + 1"
  let ?s1 = "add_epoch 1 s"
  have e1: "epoch (params ?s1) = ?e" by (simp add: add_epoch_def)
  let ?s2 = "apply_firings (invoke I) (plan_of ?e (t_epoch_start T)) ?s1"
  have r1: "run_hooks (invoke I) ?e (t_epoch_start T) ?s1
        = Inr (plan_of ?e (t_epoch_start T), ?s2)"
    by (rule run_hooks_plan[OF z3])
  have c2: "counts ?s2 = (?b, ?bs, ?m)"
    by (simp add: frame_invoke[OF fr] counts_add_epoch) (simp add: counts_def)
  have f2: "flags ?s2 = flags s" by (simp add: frame_invoke[OF ff] flags_add_epoch)
  from f2 ld ns have ld2: "dataloader ?s2 = Some loader" and ns2: "\<not> sigint ?s2"
    by (simp_all add: flags_def)
  have al: "(0::nat) mod D = 0" by simp
  have n: "length loader = 0 + length loader" by simp
  from batch_loop_groups[OF fr ff nq z1 z2 m d l c2 ns2 al ln n]
  obtain s3 where bl: "batch_loop I T (length loader) 0 loader ?s2
        = Inr (groups_events T D (?b + 1) 0 (Suc k) loader, False, s3)"
    and c3: "counts s3 = (?b + 1 + int k, ?bs, ?m)"
    and f3: "flags s3 = flags ?s2"
    by blast
  let ?v = "epoch (params s3)"
  let ?s4 = "apply_firings (invoke I) (plan_of ?v (t_epoch_end T)) s3"
  have r2: "run_hooks (invoke I) ?v (t_epoch_end T) s3 = Inr (plan_of ?v (t_epoch_end T), ?s4)"
    by (rule run_hooks_plan[OF z4])
  let ?q = "quit I ?s4"
  have c5: "counts (snd ?q) = (?b + 1 + int k, ?bs, ?m)"
    by (simp add: frame_quit[OF fr] frame_invoke[OF fr] c3)
  have f5: "flags (snd ?q) = flags s"
    by (simp add: frame_quit[OF ff] frame_invoke[OF ff] f3 flags_add_epoch)
  from f5 ns have ns5: "\<not> sigint (snd ?q)" by (simp add: flags_def)
  from nq have nq5: "\<not> fst ?q" by simp
  have res: "run_epoch I T s
           = Inr (Dispatch EpochStart ?e (plan_of ?e (t_epoch_start T))
                  # groups_events T D (?b + 1) 0 (Suc k) loader
                  @ [Dispatch EpochEnd ?v (plan_of ?v (t_epoch_end T))], False, snd ?q)"
    unfolding run_epoch_def Let_def e1 r1 by (simp add: ld2 bl r2 ns5 nq5)
  have b': "batch (params (snd ?q)) = ?b + 1 + int k" by (rule counts_batch[OF c5])
  show ?thesis by (intro exI[of _ "snd ?q"] exI[of _ ?v] conjI res b')
qed

text \<open>
  Claim C1, amended. Take extension points and callbacks that leave the batch counter, the
  two batch sizes, the interrupt flag and the data loader alone, a \<^verbatim>\<open>quit\<close> that never
  answers true, hook tables without a zero interval, and an interrupt flag that is not set.
  With \<open>batch_size = 8\<close> and \<open>mini_batch_size = 4\<close>, one epoch over the ten mini-batches
  \<open>x0\<close> to \<open>x9\<close> does this, in this order: the epoch-start dispatch; five groups, made of
  the mini-batches 0-1, 2-3, 4-5, 6-7 and 8-9, each with a batch-start dispatch and
  \<^verbatim>\<open>process_batch\<close> for its two mini-batches, then \<^verbatim>\<open>train_batch\<close> and the batch-end
  dispatch, on the counter values \<open>b + 1\<close> to \<open>b + 5\<close>; the epoch-end dispatch. So
  \<^verbatim>\<open>train_batch\<close> is called exactly five times, all ten mini-batches are processed and
  the counter advances by five. The early break only discards what cannot fill a group: the
  same holds, with the same events, when the loader has an eleventh mini-batch, which is
  never processed.
\<close>

theorem ten_minibatches_five_updates:
  assumes "frame counts I" and "frame flags I" and "\<forall>t. \<not> fst (quit I t)"
    and "0 \<notin> set (map fst (t_batch_start T))" and "0 \<notin> set (map fst (t_batch_end T))"
    and "0 \<notin> set (map fst (t_epoch_start T))" and "0 \<notin> set (map fst (t_epoch_end T))"
    and "batch_size (params s) = 8" and "mini_batch_size (params s) = 4"
    and "dataloader s = Some ([x0, x1, x2, x3, x4, x5, x6, x7, x8, x9] @ leftover)"
    and "length leftover \<le> 1" and "\<not> sigint s"
  shows "\<exists>evs s' v. run_epoch I T s = Inr (evs, False, s')
        \<and> evs = Dispatch EpochStart (epoch (params s) + 1)
                   (plan_of (epoch (params s) + 1) (t_epoch_start T))
                 # group_events T (batch (params s) + 1) 0 [x0, x1]
                 @ group_events T (batch (params s) + 2) 2 [x2, x3]
                 @ group_events T (batch (params s) + 3) 4 [x4, x5]
                 @ group_events T (batch (params s) + 4) 6 [x6, x7]
                 @ group_events T (batch (params s) + 5) 8 [x8, x9]
                 @ [Dispatch EpochEnd v (plan_of v (t_epoch_end T))]
        \<and> train_count evs = 5
        \<and> processed evs = [(0, x0), (1, x1), (2, x2), (3, x3), (4, x4),
                            (5, x5), (6, x6), (7, x7), (8, x8), (9, x9)]
        \<and> batch (params s') = batch (params s) + 5"
proof -
  let ?b = "batch (params s)"
  let ?loader = "[x0, x1, x2, x3, x4, x5, x6, x7, x8, x9] @ leftover"
  have m: "mini_batch_size (params s) \<noteq> 0" using assms(9) by simp
  have d: "batch_size (params s) div mini_batch_size (params s) = int 2"
    using assms(8,9) by simp
  have ln: "length ?loader = Suc 4 * 2 + length leftover" by simp
  have l: "length leftover < 2" using assms(11) by simp
  from run_epoch_groups[OF assms(1,2,3,4,5,6,7) m d assms(10,12) ln l]
  obtain s' v where res: "run_epoch I T s
           = Inr (Dispatch EpochStart (epoch (params s) + 1)
                    (plan_of (epoch (params s) + 1) (t_epoch_start T))
                  # groups_events T 2 (?b + 1) 0 (Suc 4) ?loader
                  @ [Dispatch EpochEnd v (plan_of v (t_epoch_end T))], False, s')"
    and b': "batch (params s') = ?b + 1 + int 4"
    by blast
  have ge: "groups_events T 2 (?b + 1) 0 (Suc 4) ?loader
      = group_events T (?b + 1) 0 [x0, x1]
        @ group_events T (?b + 2) 2 [x2, x3]
        @ group_events T (?b + 3) 4 [x4, x5]
        @ group_events T (?b + 4) 6 [x6, x7]
        @ group_events T (?b + 5) 8 [x8, x9]"
    by (simp add: eval_nat_numeral add.commute)
  let ?evs = "Dispatch EpochStart (epoch (params s) + 1)
                   (plan_of (epoch (params s) + 1) (t_epoch_start T))
                 # group_events T (?b + 1) 0 [x0, x1]
                 @ group_events T (?b + 2) 2 [x2, x3]
                 @ group_events T (?b + 3) 4 [x4, x5]
                 @ group_events T (?b + 4) 6 [x6, x7]
                 @ group_events T (?b + 5) 8 [x8, x9]
                 @ [Dispatch EpochEnd v (plan_of v (t_epoch_end T))]"
  have r: "run_epoch I T s = Inr (?evs, False, s')" using res unfolding ge by simp
  have tc: "train_count ?evs = 5"
    by (simp add: train_count_def group_events_def partial_events_def)
  have pr: "processed ?evs = [(0, x0), (1, x1), (2, x2), (3, x3), (4, x4),
                            (5, x5), (6, x6), (7, x7), (8, x8), (9, x9)]"
    by (simp add: processed_def group_events_def partial_events_def upt_conv_Cons)
  have b5: "batch (params s') = ?b + 5" using b' by simp
  show ?thesis
    by (intro exI[of _ ?evs] exI[of _ s'] exI[of _ v] conjI r refl tc pr b5)
qed

lemma eleven_minibatches_run:
  "run_epoch tally_impl one_hook (tally_engine ([0, 1, 2, 3, 4, 5, 6, 7, 8, 9] @ [10]))
     = Inr ([Dispatch EpochStart 1 [],
             Dispatch BatchStart 1 [(1, Callback 0 False, WithEngine)], ProcessBatch 0 0,
             Dispatch BatchStart 1 [(1, Callback 0 False, WithEngine)], ProcessBatch 1 1,
             TrainBatch, Dispatch BatchEnd 1 [],
             Dispatch BatchStart 2 [(1, Callback 0 False, WithEngine)], ProcessBatch 2 2,
             Dispatch BatchStart 2 [(1, Callback 0 False, WithEngine)], ProcessBatch 3 3,
             TrainBatch, Dispatch BatchEnd 2 [],
             Dispatch BatchStart 3 [(1, Callback 0 False, WithEngine)], ProcessBatch 4 4,
             Dispatch BatchStart 3 [(1, Callback 0 False, WithEngine)], ProcessBatch 5 5,
             TrainBatch, Dispatch BatchEnd 3 [],
             Dispatch BatchStart 4 [(1, Callback 0 False, WithEngine)], ProcessBatch 6 6,
             Dispatch BatchStart 4 [(1, Callback 0 False, WithEngine)], ProcessBatch 7 7,
             TrainBatch, Dispatch BatchEnd 4 [],
             Dispatch BatchStart 5 [(1, Callback 0 False, WithEngine)], ProcessBatch 8 8,
             Dispatch BatchStart 5 [(1, Callback 0 False, WithEngine)], ProcessBatch 9 9,
             TrainBatch, Dispatch BatchEnd 5 [],
             Dispatch EpochEnd 1 []],
            False,
            (tally_engine ([0, 1, 2, 3, 4, 5, 6, 7, 8, 9] @ [10]))
              \<lparr>params := demo_params\<lparr>batch := 5, epoch := 1\<rparr>, user := (10, 5, 10)\<rparr>)"
  by (simp add: run_epoch_def batch_iter_def run_hooks_def tally_impl_def one_hook_def
      tally_engine_def demo_params_def add_batch_def add_epoch_def batch_subdivisions_def
      style_of_def Let_def)

theorem ten_minibatches_five_updates_witness:
  "frame counts tally_impl \<and> frame flags tally_impl \<and> (\<forall>t. \<not> fst (quit tally_impl t))
   \<and> 0 \<notin> set (map fst (t_batch_start one_hook)) \<and> 0 \<notin> set (map fst (t_batch_end one_hook))
   \<and> 0 \<notin> set (map fst (t_epoch_start one_hook)) \<and> 0 \<notin> set (map fst (t_epoch_end one_hook))
   \<and> batch_size (params (tally_engine ([0, 1, 2, 3, 4, 5, 6, 7, 8, 9] @ [10]))) = 8
   \<and> mini_batch_size (params (tally_engine ([0, 1, 2, 3, 4, 5, 6, 7, 8, 9] @ [10]))) = 4
   \<and> dataloader (tally_engine ([0, 1, 2, 3, 4, 5, 6, 7, 8, 9] @ [10]))
       = Some ([0, 1, 2, 3, 4, 5, 6, 7, 8, 9] @ [10])
   \<and> length [10::nat] \<le> 1
   \<and> \<not> sigint (tally_engine ([0, 1, 2, 3, 4, 5, 6, 7, 8, 9] @ [10]))
   \<and> (\<exists>evs s' v. run_epoch tally_impl one_hook (tally_engine ([0, 1, 2, 3, 4, 5, 6, 7, 8, 9] @ [10]))
                    = Inr (evs, False, s')
        \<and> evs = Dispatch EpochStart 1 (plan_of 1 (t_epoch_start one_hook))
                 # group_events one_hook 1 0 [0, 1]
                 @ group_events one_hook 2 2 [2, 3]
                 @ group_events one_hook 3 4 [4, 5]
                 @ group_events one_hook 4 6 [6, 7]
                 @ group_events one_hook 5 8 [8, 9]
                 @ [Dispatch EpochEnd v (plan_of v (t_epoch_end one_hook))]
        \<and> train_count evs = 5
        \<and> processed evs = [(0, 0), (1, 1), (2, 2), (3, 3), (4, 4),
                            (5, 5), (6, 6), (7, 7), (8, 8), (9, 9)]
        \<and> batch (params s') = 5)
   \<and> user (snd (snd (projr (run_epoch tally_impl one_hook
                               (tally_engine ([0, 1, 2, 3, 4, 5, 6, 7, 8, 9] @ [10]))))))
       = (10, 5, 10)"
proof -
  let ?e = "tally_engine ([0, 1, 2, 3, 4, 5, 6, 7, 8, 9] @ [10])"
  have ll: "length [10::nat] \<le> 1" by simp
  from ten_minibatches_five_updates[where I = tally_impl and T = one_hook and s = ?e
      and ?x0.0 = 0 and ?x1.0 = 1 and ?x2.0 = 2 and ?x3.0 = 3 and ?x4.0 = 4 and ?x5.0 = 5
      and ?x6.0 = 6 and ?x7.0 = 7 and ?x8.0 = 8 and ?x9.0 = 9 and leftover = "[10]",
      OF frame_tally tally_never_quits tally_tables(1,2,3,4)
      tally_engine_fields(1,2,3) ll tally_engine_fields(4)]
  have th: "\<exists>evs s' v. run_epoch tally_impl one_hook ?e = Inr (evs, False, s')
        \<and> evs = Dispatch EpochStart 1 (plan_of 1 (t_epoch_start one_hook))
                 # group_events one_hook 1 0 [0, 1]
                 @ group_events one_hook 2 2 [2, 3]
                 @ group_events one_hook 3 4 [4, 5]
                 @ group_events one_hook 4 6 [6, 7]
                 @ group_events one_hook 5 8 [8, 9]
                 @ [Dispatch EpochEnd v (plan_of v (t_epoch_end one_hook))]
        \<and> train_count evs = 5
        \<and> processed evs = [(0, 0), (1, 1), (2, 2), (3, 3), (4, 4),
                            (5, 5), (6, 6), (7, 7), (8, 8), (9, 9)]
        \<and> batch (params s') = 5"
    by (simp add: tally_engine_fields)
  have us: "user (snd (snd (projr (run_epoch tally_impl one_hook ?e)))) = (10, 5, 10)"
    unfolding eleven_minibatches_run by simp
  show ?thesis
    by (intro conjI frame_tally tally_never_quits tally_tables(1,2,3,4)
        tally_engine_fields(1,2,3,4) ll th us)
qed

text \<open>
  Claim C1 as stated fails. With \<open>batch_size = 8\<close>, \<open>mini_batch_size = 4\<close> and ten
  mini-batches, one epoch of an engine that counts its calls processes all ten mini-batches
  and calls \<^verbatim>\<open>train_batch\<close> five times, the fifth time for the mini-batches 8 and 9: after
  the fourth completion, at position 7, \<^verbatim>\<open>len(loader) - idx\<close> is 3, not at most 2.
\<close>

theorem last_two_minibatches_are_trained:
  "run_epoch counting_impl no_hooks counting_engine
     = Inr ([Dispatch EpochStart 1 [],
             Dispatch BatchStart 1 [], ProcessBatch 0 0,
             Dispatch BatchStart 1 [], ProcessBatch 1 1, TrainBatch, Dispatch BatchEnd 1 [],
             Dispatch BatchStart 2 [], ProcessBatch 2 2,
             Dispatch BatchStart 2 [], ProcessBatch 3 3, TrainBatch, Dispatch BatchEnd 2 [],
             Dispatch BatchStart 3 [], ProcessBatch 4 4,
             Dispatch BatchStart 3 [], ProcessBatch 5 5, TrainBatch, Dispatch BatchEnd 3 [],
             Dispatch BatchStart 4 [], ProcessBatch 6 6,
             Dispatch BatchStart 4 [], ProcessBatch 7 7, TrainBatch, Dispatch BatchEnd 4 [],
             Dispatch BatchStart 5 [], ProcessBatch 8 8,
             Dispatch BatchStart 5 [], ProcessBatch 9 9, TrainBatch, Dispatch BatchEnd 5 [],
             Dispatch EpochEnd 1 []],
            False,
            counting_engine\<lparr>params := demo_params\<lparr>batch := 5, epoch := 1\<rparr>, user := (10, 5)\<rparr>)
   \<and> train_count (events_of (run_epoch counting_impl no_hooks counting_engine)) = 5
   \<and> processed (events_of (run_epoch counting_impl no_hooks counting_engine))
       = [(0, 0), (1, 1), (2, 2), (3, 3), (4, 4), (5, 5), (6, 6), (7, 7), (8, 8), (9, 9)]"
proof -
  have r: "run_epoch counting_impl no_hooks counting_engine
     = Inr ([Dispatch EpochStart 1 [],
             Dispatch BatchStart 1 [], ProcessBatch 0 0,
             Dispatch BatchStart 1 [], ProcessBatch 1 1, TrainBatch, Dispatch BatchEnd 1 [],
             Dispatch BatchStart 2 [], ProcessBatch 2 2,
             Dispatch BatchStart 2 [], ProcessBatch 3 3, TrainBatch, Dispatch BatchEnd 2 [],
             Dispatch BatchStart 3 [], ProcessBatch 4 4,
             Dispatch BatchStart 3 [], ProcessBatch 5 5, TrainBatch, Dispatch BatchEnd 3 [],
             Dispatch BatchStart 4 [], ProcessBatch 6 6,
             Dispatch BatchStart 4 [], ProcessBatch 7 7, TrainBatch, Dispatch BatchEnd 4 [],
             Dispatch BatchStart 5 [], ProcessBatch 8 8,
             Dispatch BatchStart 5 [], ProcessBatch 9 9, TrainBatch, Dispatch BatchEnd 5 [],
             Dispatch EpochEnd 1 []],
            False,
            counting_engine\<lparr>params := demo_params\<lparr>batch := 5, epoch := 1\<rparr>, user := (10, 5)\<rparr>)"
    by (simp add: run_epoch_def batch_iter_def run_hooks_def demo_loader_def counting_impl_def
        no_hooks_def counting_engine_def demo_params_def add_batch_def add_epoch_def
        batch_subdivisions_def Let_def)
  show ?thesis unfolding r by (simp add: events_of_def train_count_def processed_def)
qed

end
